theory Spec2Isabelle
  imports Complex_Main "HOL-Library.Product_Lexorder" "HOL-Library.AList"
begin

section \<open>Values and errors\<close>

text \<open>
  The service handles parsed JSON (the result of \<^verbatim>\<open>r.json()\<close>): Python \<^verbatim>\<open>None\<close>,
  booleans, unbounded integers, floats, strings, lists and dictionaries with string
  keys. A dictionary is an association list in insertion order; it is read with
  \<open>map_of\<close>. A float is a finite value, carried as the real number it denotes, or one
  of the three values \<^verbatim>\<open>inf\<close>, \<^verbatim>\<open>-inf\<close> and \<^verbatim>\<open>nan\<close>, which Python's parser accepts in
  a document and \<^verbatim>\<open>float\<close> accepts in a string. A string is a list of characters read
  as code points below 256.
\<close>

datatype pyfloat = Finite real | PosInf | NegInf | NaN

datatype json =
    JNull
  | JBool bool
  | JInt int
  | JFloat pyfloat
  | JStr string
  | JArr "json list"
  | JObj "(string \<times> json) list"

text \<open>
  Every exception the modelled code can raise is a value. \<open>HTTPException\<close> carries the
  status code and the detail string of \<^verbatim>\<open>main.py\<close>; \<open>TransportError\<close> and
  \<open>HTTPStatusError\<close> are the two failures of \<^verbatim>\<open>_get_json\<close>. \<open>SortNotModelled\<close> marks the
  one place where the model does not follow Python: sorting two or more candidates
  whose sort key holds a value that is not an integer.
\<close>

datatype error =
    AttributeError
  | KeyError
  | TypeError
  | ValueError
  | OverflowError
  | TransportError
  | HTTPStatusError nat
  | IndexError
  | HTTPException nat string
  | SortNotModelled

definition ebind :: "error + 'a \<Rightarrow> ('a \<Rightarrow> error + 'b) \<Rightarrow> error + 'b" where
  "ebind m f = (case m of Inl e \<Rightarrow> Inl e | Inr x \<Rightarrow> f x)"

section \<open>The TTL cache (\<^verbatim>\<open>cache.py\<close>)\<close>

text \<open>
  \<^verbatim>\<open>TTLCache\<close> holds \<^verbatim>\<open>ttl\<close> and the dictionary \<^verbatim>\<open>_store\<close> from keys to pairs
  (timestamp, value). Each method reads the clock once (\<^verbatim>\<open>time.time()\<close>); the reading
  is the argument \<open>now\<close>. Timestamps are real numbers, so the rounding of the float
  subtraction \<^verbatim>\<open>now - ts\<close> is not modelled.

  \<^verbatim>\<open>get\<close> returns a Python value: \<open>None\<close> is Python's \<^verbatim>\<open>None\<close>, \<open>Some v\<close> the stored
  value. The stored pair is a non-empty tuple, so \<^verbatim>\<open>if not item\<close> holds exactly when
  the key is missing.
\<close>

record 'v TTLCache =
  ttl :: int
  store :: "string \<rightharpoonup> (real \<times> 'v)"

definition TTLCache_init :: "int \<Rightarrow> 'v TTLCache" where
  "TTLCache_init ttl_seconds = \<lparr>ttl = ttl_seconds, store = Map.empty\<rparr>"

definition TTLCache_get :: "'v TTLCache \<Rightarrow> real \<Rightarrow> string \<Rightarrow> 'v option \<times> 'v TTLCache" where
  "TTLCache_get c now key =
     (case store c key of
        None \<Rightarrow> (None, c)
      | Some (ts, v) \<Rightarrow>
          if now - ts > real_of_int (ttl c)
          then (None, c\<lparr>store := (store c)(key := None)\<rparr>)
          else (Some v, c))"

definition TTLCache_set :: "'v TTLCache \<Rightarrow> real \<Rightarrow> string \<Rightarrow> 'v \<Rightarrow> 'v TTLCache" where
  "TTLCache_set c now key v = c\<lparr>store := (store c)(key \<mapsto> (now, v))\<rparr>"

definition TTLCache_clear :: "'v TTLCache \<Rightarrow> 'v TTLCache" where
  "TTLCache_clear c = c\<lparr>store := Map.empty\<rparr>"


section \<open>Python operations used by the client\<close>

text \<open>
  What \<^verbatim>\<open>int(...)\<close> and \<^verbatim>\<open>float(...)\<close> do with a string, and whether an integer fits a
  float, is decided by the Python runtime and not by this repository: the three
  conversions are parameters. \<open>None\<close> stands for the exception the runtime raises
  (\<^verbatim>\<open>ValueError\<close> for a string, \<^verbatim>\<open>OverflowError\<close> for an integer). A string can denote
  an infinite float or \<^verbatim>\<open>nan\<close>; an integer that converts gives a finite float.
\<close>

record builtins =
  int_of_str :: "string \<Rightarrow> int option"
  float_of_str :: "string \<Rightarrow> pyfloat option"
  float_of_int :: "int \<Rightarrow> real option"

fun py_int :: "builtins \<Rightarrow> json \<Rightarrow> error + int" where
  "py_int B JNull = Inl TypeError"
| "py_int B (JBool b) = Inr (if b then 1 else 0)"
| "py_int B (JInt n) = Inr n"
| "py_int B (JFloat (Finite x)) = Inr (if 0 \<le> x then \<lfloor>x\<rfloor> else \<lceil>x\<rceil>)"
| "py_int B (JFloat PosInf) = Inl OverflowError"
| "py_int B (JFloat NegInf) = Inl OverflowError"
| "py_int B (JFloat NaN) = Inl ValueError"
| "py_int B (JStr s) = (case int_of_str B s of None \<Rightarrow> Inl ValueError | Some n \<Rightarrow> Inr n)"
| "py_int B (JArr xs) = Inl TypeError"
| "py_int B (JObj kvs) = Inl TypeError"

fun py_float :: "builtins \<Rightarrow> json \<Rightarrow> error + pyfloat" where
  "py_float B JNull = Inl TypeError"
| "py_float B (JBool b) = Inr (Finite (if b then 1 else 0))"
| "py_float B (JInt n) = (case float_of_int B n of None \<Rightarrow> Inl OverflowError | Some x \<Rightarrow> Inr (Finite x))"
| "py_float B (JFloat x) = Inr x"
| "py_float B (JStr s) = (case float_of_str B s of None \<Rightarrow> Inl ValueError | Some x \<Rightarrow> Inr x)"
| "py_float B (JArr xs) = Inl TypeError"
| "py_float B (JObj kvs) = Inl TypeError"

text \<open>\<^verbatim>\<open>x.get(key, default)\<close>: only a dictionary has the method.\<close>

fun py_get :: "json \<Rightarrow> string \<Rightarrow> json \<Rightarrow> error + json" where
  "py_get (JObj kvs) key dflt = Inr (case map_of kvs key of None \<Rightarrow> dflt | Some v \<Rightarrow> v)"
| "py_get _ key dflt = Inl AttributeError"

text \<open>
  \<^verbatim>\<open>for x in v\<close>: a list gives its elements, a dictionary its keys, a string its
  characters; nothing else is iterable.
\<close>

fun py_iter :: "json \<Rightarrow> error + json list" where
  "py_iter (JArr xs) = Inr xs"
| "py_iter (JObj kvs) = Inr (map (\<lambda>kv. JStr (fst kv)) kvs)"
| "py_iter (JStr s) = Inr (map (\<lambda>c. JStr [c]) s)"
| "py_iter _ = Inl TypeError"

text \<open>
  \<^verbatim>\<open>str.lower()\<close> and \<^verbatim>\<open>str.strip()\<close> on code points below 256: the upper-case letters
  are \<open>A\<close>-\<open>Z\<close> (65-90) and 192-222 without the multiplication sign 215, each 32 below
  its lower-case letter; the white space is 9-13, 28-32, 133 and 160.
\<close>

definition lower_char :: "char \<Rightarrow> char" where
  "lower_char c =
     (let n = (of_char c :: nat)
      in if (65 \<le> n \<and> n \<le> 90) \<or> (192 \<le> n \<and> n \<le> 222 \<and> n \<noteq> 215)
         then char_of (n + 32) else c)"

definition lower :: "string \<Rightarrow> string" where
  "lower s = map lower_char s"

definition isspace :: "char \<Rightarrow> bool" where
  "isspace c =
     (let n = (of_char c :: nat)
      in (9 \<le> n \<and> n \<le> 13) \<or> (28 \<le> n \<and> n \<le> 32) \<or> n = 133 \<or> n = 160)"

definition strip :: "string \<Rightarrow> string" where
  "strip s = rev (dropWhile isspace (rev (dropWhile isspace s)))"

text \<open>\<^verbatim>\<open>v.lower()\<close> on a value of any type: only a string has the method.\<close>

fun py_lower :: "json \<Rightarrow> error + string" where
  "py_lower (JStr s) = Inr (lower s)"
| "py_lower _ = Inl AttributeError"

text \<open>\<^verbatim>\<open>sub in s\<close> on two strings: \<open>sub\<close> occurs in \<open>s\<close> as a contiguous block.\<close>

fun str_in :: "string \<Rightarrow> string \<Rightarrow> bool" where
  "str_in sub [] = (sub = [])"
| "str_in sub (c # s) = (take (length sub) (c # s) = sub \<or> str_in sub s)"

text \<open>
  A list comprehension \<^verbatim>\<open>[x for x in xs if cond(x)]\<close> whose condition can raise:
  the elements are tested from the left and the first exception ends the loop.
\<close>

fun filter_e :: "('a \<Rightarrow> error + bool) \<Rightarrow> 'a list \<Rightarrow> error + 'a list" where
  "filter_e p [] = Inr []"
| "filter_e p (x # xs) =
     (case p x of
        Inl e \<Rightarrow> Inl e
      | Inr b \<Rightarrow> (case filter_e p xs of
                   Inl e \<Rightarrow> Inl e
                 | Inr ys \<Rightarrow> Inr (if b then x # ys else ys)))"

fun map_e :: "('a \<Rightarrow> error + 'b) \<Rightarrow> 'a list \<Rightarrow> error + 'b list" where
  "map_e f [] = Inr []"
| "map_e f (x # xs) =
     (case f x of
        Inl e \<Rightarrow> Inl e
      | Inr y \<Rightarrow> (case map_e f xs of Inl e \<Rightarrow> Inl e | Inr ys \<Rightarrow> Inr (y # ys)))"

section \<open>The client (\<^verbatim>\<open>ipma_client.py\<close>)\<close>

text \<open>
  The client reads the network through \<^verbatim>\<open>_get_json\<close>: \<open>fetch url\<close> is what the call
  gives for \<open>url\<close>, the parsed document or the exception of \<^verbatim>\<open>httpx\<close>. The three
  module-level caches are passed in and returned; \<open>t_get\<close> and \<open>t_set\<close> are the clock
  readings of the \<^verbatim>\<open>get\<close> and of the \<^verbatim>\<open>set\<close> that an operation performs.
\<close>

record client =
  base_url :: string
  fetch :: "string \<Rightarrow> error + json"

text \<open>
  \<^verbatim>\<open>get_localities\<close>. A cached value that is \<^verbatim>\<open>None\<close> (the upstream document had
  \<^verbatim>\<open>"data": null\<close>) fails the test \<^verbatim>\<open>cached is not None\<close> like a miss.
\<close>

definition get_localities ::
  "client \<Rightarrow> json TTLCache \<Rightarrow> real \<Rightarrow> real \<Rightarrow> (error + json) \<times> json TTLCache" where
  "get_localities cl c t_get t_set =
     (case TTLCache_get c t_get ''localities'' of
        (cached, c1) \<Rightarrow>
          (case cached of
             Some v \<Rightarrow> if v \<noteq> JNull then (Inr v, c1) else
               (case fetch cl (base_url cl @ ''/distrits-islands.json'') of
                  Inl e \<Rightarrow> (Inl e, c1)
                | Inr data \<Rightarrow>
                    (case py_get data ''data'' (JArr []) of
                       Inl e \<Rightarrow> (Inl e, c1)
                     | Inr items \<Rightarrow> (Inr items, TTLCache_set c1 t_set ''localities'' items)))
           | None \<Rightarrow>
               (case fetch cl (base_url cl @ ''/distrits-islands.json'') of
                  Inl e \<Rightarrow> (Inl e, c1)
                | Inr data \<Rightarrow>
                    (case py_get data ''data'' (JArr []) of
                       Inl e \<Rightarrow> (Inl e, c1)
                     | Inr items \<Rightarrow> (Inr items, TTLCache_set c1 t_set ''localities'' items)))))"

text \<open>
  \<^verbatim>\<open>get_weather_types\<close>. The mapping is a Python dictionary with integer keys: an
  association list in insertion order, where assigning to a key that is present
  replaces its value in place. The right-hand side of the assignment is evaluated
  before the key, so an item that is not a dictionary raises \<^verbatim>\<open>AttributeError\<close>; a
  dictionary without \<^verbatim>\<open>idWeatherType\<close> raises \<^verbatim>\<open>KeyError\<close>.
\<close>

fun py_item :: "json \<Rightarrow> string \<Rightarrow> error + json" where
  "py_item (JObj kvs) key = (case map_of kvs key of None \<Rightarrow> Inl KeyError | Some v \<Rightarrow> Inr v)"
| "py_item _ key = Inl TypeError"

fun weather_mapping :: "builtins \<Rightarrow> json list \<Rightarrow> (int \<times> json) list \<Rightarrow> error + (int \<times> json) list" where
  "weather_mapping B [] mapping = Inr mapping"
| "weather_mapping B (it # its) mapping =
     ebind (py_get it ''descWeatherTypePT'' (JStr '''')) (\<lambda>pt.
     ebind (py_get it ''descWeatherTypeEN'' (JStr '''')) (\<lambda>en.
     ebind (py_item it ''idWeatherType'') (\<lambda>v.
     ebind (py_int B v) (\<lambda>n.
       weather_mapping B its
         (AList.update n (JObj [(''pt'', pt), (''en'', en)]) mapping)))))"

definition fetch_weather_types :: "builtins \<Rightarrow> client \<Rightarrow> error + (int \<times> json) list" where
  "fetch_weather_types B cl =
     ebind (fetch cl (base_url cl @ ''/weather-type-classe.json'')) (\<lambda>data.
     ebind (py_get data ''data'' (JArr [])) (\<lambda>raw.
     ebind (py_iter raw) (\<lambda>its.
       weather_mapping B its [])))"

definition get_weather_types ::
  "builtins \<Rightarrow> client \<Rightarrow> (int \<times> json) list TTLCache \<Rightarrow> real \<Rightarrow> real
     \<Rightarrow> (error + (int \<times> json) list) \<times> (int \<times> json) list TTLCache" where
  "get_weather_types B cl c t_get t_set =
     (case TTLCache_get c t_get ''weather_types'' of
        (Some mapping, c1) \<Rightarrow> (Inr mapping, c1)
      | (None, c1) \<Rightarrow>
          (case fetch_weather_types B cl of
             Inl e \<Rightarrow> (Inl e, c1)
           | Inr mapping \<Rightarrow> (Inr mapping, TTLCache_set c1 t_set ''weather_types'' mapping)))"

text \<open>
  \<^verbatim>\<open>find_locality\<close>, from the list that \<^verbatim>\<open>get_localities\<close> returned. The district
  filter is \<^verbatim>\<open>int(l.get("idDistrito", -1)) == int(district_id)\<close>, where \<open>district_id\<close>
  is an integer already.
\<close>

definition local_is :: "(string \<Rightarrow> bool) \<Rightarrow> json \<Rightarrow> error + bool" where
  "local_is p l =
     ebind (py_get l ''local'' (JStr '''')) (\<lambda>v.
     ebind (py_lower v) (\<lambda>s. Inr (p s)))"

definition in_district :: "builtins \<Rightarrow> int \<Rightarrow> json \<Rightarrow> error + bool" where
  "in_district B d l =
     ebind (py_get l ''idDistrito'' (JInt (- 1))) (\<lambda>v.
     ebind (py_int B v) (\<lambda>n. Inr (n = d)))"

definition district_filter :: "builtins \<Rightarrow> int option \<Rightarrow> json list \<Rightarrow> error + json list" where
  "district_filter B district_id candidates =
     (case district_id of
        None \<Rightarrow> Inr candidates
      | Some d \<Rightarrow> filter_e (in_district B d) candidates)"

text \<open>
  \<^verbatim>\<open>sorted(candidates, key=lambda x: (x.get("idConcelho", 1_000_000),
  x.get("globalIdLocal", 1_000_000)))[0]\<close>. The key of every candidate is computed
  first. One candidate is returned without any comparison. For two or more, the keys
  are compared as pairs of integers and the sort is stable; when a key holds a value
  that is not an integer, what Python does depends on the pairs its sort compares,
  and the model answers \<open>SortNotModelled\<close>.
\<close>

definition tie_key :: "json \<Rightarrow> error + (json \<times> json)" where
  "tie_key x =
     ebind (py_get x ''idConcelho'' (JInt 1000000)) (\<lambda>a.
     ebind (py_get x ''globalIdLocal'' (JInt 1000000)) (\<lambda>b. Inr (a, b)))"

fun int_keys :: "(json \<times> json) list \<Rightarrow> (int \<times> int) list option" where
  "int_keys [] = Some []"
| "int_keys ((JInt a, JInt b) # ks) = map_option (\<lambda>r. (a, b) # r) (int_keys ks)"
| "int_keys (k # ks) = None"

definition sorted_first :: "json list \<Rightarrow> error + json" where
  "sorted_first candidates =
     ebind (map_e tie_key candidates) (\<lambda>ks.
       case candidates of
         [] \<Rightarrow> Inl IndexError
       | [x] \<Rightarrow> Inr x
       | x # y # zs \<Rightarrow>
           (case int_keys ks of
              None \<Rightarrow> Inl SortNotModelled
            | Some iks \<Rightarrow> Inr (snd (hd (sort_key fst (zip iks candidates))))))"

definition find_locality_in ::
  "builtins \<Rightarrow> json \<Rightarrow> string \<Rightarrow> int option \<Rightarrow> error + json option" where
  "find_locality_in B locs locality district_id =
     (let locality_norm = lower (strip locality) in
      ebind (py_iter locs) (\<lambda>ls.
      ebind (filter_e (local_is (\<lambda>s. s = locality_norm)) ls) (\<lambda>exact.
      ebind (district_filter B district_id exact) (\<lambda>candidates.
        if candidates \<noteq> [] then ebind (sorted_first candidates) (\<lambda>r. Inr (Some r))
        else
          ebind (filter_e (local_is (\<lambda>s. str_in locality_norm s)) ls) (\<lambda>sub.
          ebind (district_filter B district_id sub) (\<lambda>contains.
            if contains \<noteq> [] then ebind (sorted_first contains) (\<lambda>r. Inr (Some r))
            else Inr None))))))"

definition find_locality ::
  "builtins \<Rightarrow> client \<Rightarrow> json TTLCache \<Rightarrow> real \<Rightarrow> real \<Rightarrow> string \<Rightarrow> int option
     \<Rightarrow> (error + json option) \<times> json TTLCache" where
  "find_locality B cl c t_get t_set locality district_id =
     (case get_localities cl c t_get t_set of
        (Inl e, c') \<Rightarrow> (Inl e, c')
      | (Inr locs, c') \<Rightarrow> (find_locality_in B locs locality district_id, c'))"


section \<open>The request handlers (\<^verbatim>\<open>main.py\<close>)\<close>

text \<open>
  A handler calls the client at most once per operation: \<open>resolved\<close> is what
  \<^verbatim>\<open>client.find_locality(locality, district_id)\<close> gives during the request,
  \<open>forecast gid\<close> what \<^verbatim>\<open>client.get_daily_forecast(gid)\<close> gives, and \<open>wtypes\<close> what
  \<^verbatim>\<open>client.get_weather_types()\<close> gives. The query parameter \<^verbatim>\<open>forecast_date\<close> enters
  as the string \<open>day_iso\<close> that \<^verbatim>\<open>forecast_date.isoformat()\<close> returns.
\<close>

record responses =
  resolved :: "error + json option"
  forecast :: "int \<Rightarrow> error + json"
  wtypes :: "error + (int \<times> json) list"

text \<open>
  \<^verbatim>\<open>JSONResponse(content=...)\<close> renders the content with \<^verbatim>\<open>allow_nan=False\<close>: a float that
  is infinite or \<^verbatim>\<open>nan\<close>, anywhere in the content, raises \<^verbatim>\<open>ValueError\<close>; any other
  content is the response.
\<close>

fun json_compliant :: "json \<Rightarrow> bool" where
  "json_compliant (JFloat (Finite x)) = True"
| "json_compliant (JFloat x) = False"
| "json_compliant (JArr xs) = list_all json_compliant xs"
| "json_compliant (JObj kvs) = list_all (\<lambda>kv. json_compliant (snd kv)) kvs"
| "json_compliant v = True"

definition JSONResponse :: "json \<Rightarrow> error + json" where
  "JSONResponse content = (if json_compliant content then Inr content else Inl ValueError)"

text \<open>Python's truth value of a JSON value.\<close>

fun truthy :: "json \<Rightarrow> bool" where
  "truthy JNull = False"
| "truthy (JBool b) = b"
| "truthy (JInt n) = (n \<noteq> 0)"
| "truthy (JFloat x) = (x \<noteq> Finite 0)"
| "truthy (JStr s) = (s \<noteq> [])"
| "truthy (JArr xs) = (xs \<noteq> [])"
| "truthy (JObj kvs) = (kvs \<noteq> [])"

text \<open>
  The first lines of both handlers: without an identifier (\<^verbatim>\<open>None\<close> or \<open>0\<close>) and
  without a name (\<^verbatim>\<open>None\<close> or the empty string) the request is refused; without an
  identifier the name is resolved, and \<^verbatim>\<open>found["globalIdLocal"]\<close> is converted.
\<close>

definition resolve_id :: "builtins \<Rightarrow> responses \<Rightarrow> int option \<Rightarrow> string option \<Rightarrow> error + int" where
  "resolve_id B R global_id_local locality =
     (let no_id = (global_id_local = None \<or> global_id_local = Some 0);
          no_name = (locality = None \<or> locality = Some [])
      in if no_id \<and> no_name
         then Inl (HTTPException 400 ''Provide either global_id_local or locality'')
         else if no_id then
           ebind (resolved R) (\<lambda>found.
             case found of
               None \<Rightarrow> Inl (HTTPException 404 ''Locality not found'')
             | Some l \<Rightarrow>
                 if \<not> truthy l then Inl (HTTPException 404 ''Locality not found'')
                 else ebind (py_item l ''globalIdLocal'') (py_int B))
         else (case global_id_local of Some n \<Rightarrow> Inr n | None \<Rightarrow> Inl TypeError))"

text \<open>
  \<^verbatim>\<open>k in d\<close> and \<^verbatim>\<open>d[k]\<close> for a string \<open>k\<close>: on a dictionary the key test and the
  lookup; on a list the membership test, and indexing by a string raises; on a string
  the substring test, and indexing by a string raises; other values are not iterable.
\<close>

fun py_contains :: "json \<Rightarrow> string \<Rightarrow> error + bool" where
  "py_contains (JObj kvs) k = Inr (map_of kvs k \<noteq> None)"
| "py_contains (JArr xs) k = Inr (JStr k \<in> set xs)"
| "py_contains (JStr s) k = Inr (str_in k s)"
| "py_contains _ k = Inl TypeError"

text \<open>
  The body of the normalisation loop of \<^verbatim>\<open>daily_forecast\<close> for one record and one key.
  The test \<^verbatim>\<open>k in d and d[k] is not None\<close> stands outside the \<^verbatim>\<open>try\<close>; the conversion
  and the assignment stand inside, and \<^verbatim>\<open>except Exception: pass\<close> leaves the record
  as it is.
\<close>

definition normalize_field :: "builtins \<Rightarrow> json \<Rightarrow> string \<Rightarrow> error + json" where
  "normalize_field B d k =
     ebind (py_contains d k) (\<lambda>present.
       if \<not> present then Inr d
       else ebind (py_item d k) (\<lambda>v.
         if v = JNull then Inr d
         else (case py_float B v of
                 Inl e \<Rightarrow> Inr d
               | Inr x \<Rightarrow> (case d of
                             JObj kvs \<Rightarrow> Inr (JObj (AList.update k (JFloat x) kvs))
                           | _ \<Rightarrow> Inr d))))"

fun normalize_keys :: "builtins \<Rightarrow> string list \<Rightarrow> json \<Rightarrow> error + json" where
  "normalize_keys B [] d = Inr d"
| "normalize_keys B (k # ks) d = ebind (normalize_field B d k) (normalize_keys B ks)"

definition normalize_record :: "builtins \<Rightarrow> json \<Rightarrow> error + json" where
  "normalize_record B d =
     normalize_keys B [''tMin'', ''tMax'', ''precipitaProb'', ''latitude'', ''longitude''] d"

text \<open>
  \<^verbatim>\<open>daily_forecast\<close>. The records are changed in place, so the document that is
  returned holds the normalised records when its \<^verbatim>\<open>data\<close> is a list; a dictionary or
  a string in that place is iterated too, over values that cannot change.
\<close>

definition daily_forecast ::
  "builtins \<Rightarrow> responses \<Rightarrow> int option \<Rightarrow> string option \<Rightarrow> error + json" where
  "daily_forecast B R global_id_local locality =
     ebind (resolve_id B R global_id_local locality) (\<lambda>gid.
     ebind (forecast R gid) (\<lambda>data.
     ebind (py_get data ''data'' (JArr [])) (\<lambda>days.
     ebind (py_iter days) (\<lambda>ds.
     ebind (map_e (normalize_record B) ds) (\<lambda>ds'.
       JSONResponse
         (case data of
            JObj kvs \<Rightarrow>
              (case days of
                 JArr xs \<Rightarrow> if map_of kvs ''data'' = None then data
                            else JObj (AList.update ''data'' (JArr ds') kvs)
               | _ \<Rightarrow> data)
          | _ \<Rightarrow> data))))))"

text \<open>
  \<^verbatim>\<open>forecast_for_day\<close>. The generator handed to \<^verbatim>\<open>next\<close> stops at the first record
  whose \<^verbatim>\<open>forecastDate\<close> equals the ISO string, so a later record is never read.
\<close>

fun find_day :: "string \<Rightarrow> json list \<Rightarrow> error + json option" where
  "find_day day_iso [] = Inr None"
| "find_day day_iso (d # ds) =
     ebind (py_get d ''forecastDate'' JNull) (\<lambda>v.
       if v = JStr day_iso then Inr (Some d) else find_day day_iso ds)"

definition label :: "(int \<times> json) list \<Rightarrow> int \<Rightarrow> string \<Rightarrow> error + json" where
  "label mapping wt lang =
     py_get (case map_of mapping wt of None \<Rightarrow> JObj [] | Some e \<Rightarrow> e) lang (JStr '''')"

definition weather_of :: "builtins \<Rightarrow> (int \<times> json) list \<Rightarrow> json \<Rightarrow> error + json" where
  "weather_of B mapping day =
     ebind (py_get day ''idWeatherType'' JNull) (\<lambda>v.
     ebind (py_int B v) (\<lambda>wt.
     ebind (label mapping wt ''pt'') (\<lambda>pt.
     ebind (label mapping wt ''en'') (\<lambda>en.
       Inr (JObj [(''id'', JInt wt), (''pt'', pt), (''en'', en)])))))"

definition wind_of :: "builtins \<Rightarrow> json \<Rightarrow> error + json" where
  "wind_of B day =
     ebind (py_get day ''classWindSpeed'' JNull) (\<lambda>c.
     ebind (if c \<noteq> JNull then ebind (py_int B c) (\<lambda>n. Inr (JInt n)) else Inr JNull) (\<lambda>cls.
     ebind (py_get day ''predWindDir'' JNull) (\<lambda>dir.
       Inr (JObj [(''class'', cls), (''dir'', dir)]))))"

definition float_of :: "builtins \<Rightarrow> json \<Rightarrow> string \<Rightarrow> error + json" where
  "float_of B day k =
     ebind (py_get day k JNull) (\<lambda>v.
     ebind (py_float B v) (\<lambda>x. Inr (JFloat x)))"

definition forecast_for_day ::
  "builtins \<Rightarrow> responses \<Rightarrow> string \<Rightarrow> int option \<Rightarrow> string option \<Rightarrow> error + json" where
  "forecast_for_day B R day_iso global_id_local locality =
     ebind (resolve_id B R global_id_local locality) (\<lambda>gid.
     ebind (forecast R gid) (\<lambda>data.
     ebind (py_get data ''data'' (JArr [])) (\<lambda>days.
     ebind (py_iter days) (\<lambda>ds.
     ebind (find_day day_iso ds) (\<lambda>found.
       case found of
         None \<Rightarrow> Inl (HTTPException 404 ''Date not in available forecast window'')
       | Some day \<Rightarrow>
           if \<not> truthy day
           then Inl (HTTPException 404 ''Date not in available forecast window'')
           else
             ebind (wtypes R) (\<lambda>mapping.
             ebind (weather_of B mapping day) (\<lambda>weather.
             ebind (wind_of B day) (\<lambda>wind.
             ebind (py_get data ''globalIdLocal'' JNull) (\<lambda>g.
             ebind (py_int B g) (\<lambda>gl.
             ebind (float_of B day ''tMin'') (\<lambda>tmin.
             ebind (float_of B day ''tMax'') (\<lambda>tmax.
             ebind (float_of B day ''precipitaProb'') (\<lambda>prob.
             ebind (py_get day ''predWindDir'' JNull) (\<lambda>dir.
               JSONResponse
                 (JObj [(''globalIdLocal'', JInt gl), (''forecastDate'', JStr day_iso),
                        (''tMin'', tmin), (''tMax'', tmax), (''precipitaProb'', prob),
                        (''predWindDir'', dir), (''weather'', weather),
                        (''wind'', wind)])))))))))))))))"


section \<open>Vocabulary of the statements\<close>

text \<open>
  The schema \<^verbatim>\<open>Locality\<close> of \<^verbatim>\<open>schemas.py\<close> types the fields of a locality record:
  \<^verbatim>\<open>local\<close> is a string, \<^verbatim>\<open>idDistrito\<close>, \<^verbatim>\<open>idConcelho\<close> and \<^verbatim>\<open>globalIdLocal\<close> are
  integers. \<open>Locality_ok\<close> asks this of the fields that are present, and lets any of
  them be missing, as the defaults of \<^verbatim>\<open>find_locality\<close> do. On such a record the
  three readings of \<^verbatim>\<open>find_locality\<close> raise nothing: \<open>local_name\<close> is
  \<^verbatim>\<open>l.get("local", "").lower()\<close>, \<open>district\<close> is \<^verbatim>\<open>int(l.get("idDistrito", -1))\<close> and
  \<open>rank\<close> is the sort key.
\<close>

definition field :: "json \<Rightarrow> string \<Rightarrow> json option" where
  "field l key = (case l of JObj kvs \<Rightarrow> map_of kvs key | _ \<Rightarrow> None)"

fun is_obj :: "json \<Rightarrow> bool" where
  "is_obj (JObj kvs) = True"
| "is_obj _ = False"

fun str_or_missing :: "json option \<Rightarrow> bool" where
  "str_or_missing None = True"
| "str_or_missing (Some (JStr s)) = True"
| "str_or_missing (Some _) = False"

fun int_or_missing :: "json option \<Rightarrow> bool" where
  "int_or_missing None = True"
| "int_or_missing (Some (JInt n)) = True"
| "int_or_missing (Some _) = False"

definition local_ok :: "json \<Rightarrow> bool" where
  "local_ok l = (is_obj l \<and> str_or_missing (field l ''local''))"

definition Locality_ok :: "json \<Rightarrow> bool" where
  "Locality_ok l =
     (local_ok l \<and> int_or_missing (field l ''idDistrito'')
      \<and> int_or_missing (field l ''idConcelho'') \<and> int_or_missing (field l ''globalIdLocal''))"

definition local_name :: "json \<Rightarrow> string" where
  "local_name l = (case field l ''local'' of Some (JStr s) \<Rightarrow> lower s | _ \<Rightarrow> [])"

definition int_field :: "json \<Rightarrow> string \<Rightarrow> int \<Rightarrow> int" where
  "int_field l key dflt = (case field l key of Some (JInt n) \<Rightarrow> n | _ \<Rightarrow> dflt)"

definition district :: "json \<Rightarrow> int" where
  "district l = int_field l ''idDistrito'' (- 1)"

definition rank :: "json \<Rightarrow> int \<times> int" where
  "rank l = (int_field l ''idConcelho'' 1000000, int_field l ''globalIdLocal'' 1000000)"

definition district_is :: "int option \<Rightarrow> json \<Rightarrow> bool" where
  "district_is district_id l = (case district_id of None \<Rightarrow> True | Some d \<Rightarrow> district l = d)"

text \<open>
  The candidates of the two tiers for a normalised name, after the district filter:
  the lists \<^verbatim>\<open>candidates\<close> and \<^verbatim>\<open>contains\<close> of \<^verbatim>\<open>find_locality\<close>.
\<close>

definition exact_candidates :: "string \<Rightarrow> int option \<Rightarrow> json list \<Rightarrow> json list" where
  "exact_candidates nm district_id locs =
     filter (district_is district_id) (filter (\<lambda>l. local_name l = nm) locs)"

definition contains_candidates :: "string \<Rightarrow> int option \<Rightarrow> json list \<Rightarrow> json list" where
  "contains_candidates nm district_id locs =
     filter (district_is district_id) (filter (\<lambda>l. str_in nm (local_name l)) locs)"

text \<open>
  \<open>resolve\<close> is the selection of \<^verbatim>\<open>find_locality\<close> on records that are \<open>Locality_ok\<close>,
  where nothing raises: the first tier with a candidate decides, and the candidate
  that a stable sort by \<open>rank\<close> puts first is taken.
\<close>

definition resolve :: "string \<Rightarrow> int option \<Rightarrow> json list \<Rightarrow> json option" where
  "resolve nm d locs =
     (if exact_candidates nm d locs \<noteq> [] then Some (hd (sort_key rank (exact_candidates nm d locs)))
      else if contains_candidates nm d locs \<noteq> [] then Some (hd (sort_key rank (contains_candidates nm d locs)))
      else None)"

text \<open>
  \<open>least_first cands r\<close>: \<open>r\<close> stands in \<open>cands\<close>, no candidate has a smaller key, and
  every candidate before \<open>r\<close> has a different key.
\<close>

definition least_first :: "json list \<Rightarrow> json \<Rightarrow> bool" where
  "least_first cands r =
     (\<exists>i < length cands. cands ! i = r
        \<and> (\<forall>j < length cands. rank r \<le> rank (cands ! j))
        \<and> (\<forall>j < i. rank (cands ! j) \<noteq> rank r))"

text \<open>
  The conversions on the strings that the examples below use (\<^verbatim>\<open>float("12.5")\<close> is
  \<open>12.5\<close>, \<^verbatim>\<open>float("1e999")\<close> is \<^verbatim>\<open>inf\<close>, \<^verbatim>\<open>float("n/a")\<close> raises); no other string is
  converted in an example.
\<close>

definition example_builtins :: builtins where
  "example_builtins =
     \<lparr>int_of_str = map_of [(''11'', 11)],
      float_of_str = map_of [(''12.5'', Finite (25 / 2)), (''20.1'', Finite (201 / 10)),
                             (''0'', Finite 0), (''1e999'', PosInf)],
      float_of_int = (\<lambda>n. Some (real_of_int n))\<rparr>"

text \<open>
  For an item of the raw weather-type array: the key \<^verbatim>\<open>int(it["idWeatherType"])\<close> and
  the labels \<^verbatim>\<open>{"pt": it.get("descWeatherTypePT", ""), "en": it.get("descWeatherTypeEN", "")}\<close>.
\<close>

definition weather_id :: "builtins \<Rightarrow> json \<Rightarrow> error + int" where
  "weather_id B it = ebind (py_item it ''idWeatherType'') (py_int B)"

definition weather_labels :: "json \<Rightarrow> json" where
  "weather_labels it =
     JObj [(''pt'', case field it ''descWeatherTypePT'' of None \<Rightarrow> JStr '''' | Some v \<Rightarrow> v),
           (''en'', case field it ''descWeatherTypeEN'' of None \<Rightarrow> JStr '''' | Some v \<Rightarrow> v)]"


section \<open>Properties of the cache\<close>

lemma TTLCache_get_fresh:
  assumes "store c k = Some (ts, v)" and "now - ts \<le> real_of_int (ttl c)"
  shows "TTLCache_get c now k = (Some v, c)"
  using assms by (simp add: TTLCache_get_def)

lemma TTLCache_get_stale:
  assumes "store c k = Some (ts, v)" and "now - ts > real_of_int (ttl c)"
  shows "TTLCache_get c now k = (None, c\<lparr>store := (store c)(k := None)\<rparr>)"
  using assms by (simp add: TTLCache_get_def)

lemma TTLCache_get_missing:
  assumes "store c k = None"
  shows "TTLCache_get c now k = (None, c)"
  using assms by (simp add: TTLCache_get_def)

lemma TTLCache_get_ttl: "ttl (snd (TTLCache_get c now k)) = ttl c"
  by (simp add: TTLCache_get_def split: option.splits prod.splits)

lemma TTLCache_get_other:
  "k' \<noteq> k \<Longrightarrow> store (snd (TTLCache_get c now k)) k' = store c k'"
  by (simp add: TTLCache_get_def split: option.splits prod.splits)

lemma TTLCache_get_removes:
  assumes "store c k' = Some (ts, v)" and "store (snd (TTLCache_get c now k)) k' = None"
  shows "k' = k \<and> now - ts > real_of_int (ttl c)"
  using assms by (cases "k' = k") (auto simp: TTLCache_get_def split: option.splits if_splits)

text \<open>
  Claim C1. For every key \<open>k\<close>, \<^verbatim>\<open>get(k)\<close> returns the stored value when an entry for
  \<open>k\<close> is present and its age \<open>now - ts\<close> is at most \<open>ttl\<close>, and then leaves the cache as
  it is; in every other case it returns \<^verbatim>\<open>None\<close> and the store afterwards is the old
  one without \<open>k\<close>. Eviction happens on this path only: \<^verbatim>\<open>get(k)\<close> touches no other
  key, an entry that a \<^verbatim>\<open>get\<close> removes is the entry of the key asked for and is
  older than \<open>ttl\<close>, and \<^verbatim>\<open>set\<close> removes no entry. (\<^verbatim>\<open>clear\<close> empties the store
  whatever the ages are; it does not look at timestamps.)
\<close>

theorem TTLCache_get_spec:
  "(\<forall>ts v. store c k = Some (ts, v) \<and> now - ts \<le> real_of_int (ttl c)
       \<longrightarrow> TTLCache_get c now k = (Some v, c))
   \<and> (\<not> (\<exists>ts v. store c k = Some (ts, v) \<and> now - ts \<le> real_of_int (ttl c))
       \<longrightarrow> TTLCache_get c now k = (None, c\<lparr>store := (store c)(k := None)\<rparr>))
   \<and> (\<forall>k'. k' \<noteq> k \<longrightarrow> store (snd (TTLCache_get c now k)) k' = store c k')
   \<and> (\<forall>k' ts v. store c k' = Some (ts, v) \<and> store (snd (TTLCache_get c now k)) k' = None
       \<longrightarrow> k' = k \<and> now - ts > real_of_int (ttl c))
   \<and> (\<forall>k' w. store c k' \<noteq> None \<longrightarrow> store (TTLCache_set c now k w) k' \<noteq> None)
   \<and> store (TTLCache_clear c) = Map.empty"
proof (intro conjI allI impI)
  fix ts v
  assume "store c k = Some (ts, v) \<and> now - ts \<le> real_of_int (ttl c)"
  then show "TTLCache_get c now k = (Some v, c)"
    by (simp add: TTLCache_get_fresh)
next
  assume none: "\<not> (\<exists>ts v. store c k = Some (ts, v) \<and> now - ts \<le> real_of_int (ttl c))"
  show "TTLCache_get c now k = (None, c\<lparr>store := (store c)(k := None)\<rparr>)"
  proof (cases "store c k")
    case None
    then have "(store c)(k := None) = store c" by auto
    with None show ?thesis by (simp add: TTLCache_get_def)
  next
    case (Some e)
    obtain ts v where e: "e = (ts, v)" by (cases e)
    with Some none have "now - ts > real_of_int (ttl c)" by auto
    with Some e show ?thesis by (simp add: TTLCache_get_stale)
  qed
next
  fix k' assume "k' \<noteq> k"
  then show "store (snd (TTLCache_get c now k)) k' = store c k'"
    by (rule TTLCache_get_other)
next
  fix k' ts v
  assume "store c k' = Some (ts, v) \<and> store (snd (TTLCache_get c now k)) k' = None"
  then show "k' = k" and "now - ts > real_of_int (ttl c)"
    using TTLCache_get_removes[of c k' ts v now k] by auto
next
  fix k' w assume "store c k' \<noteq> None"
  then show "store (TTLCache_set c now k w) k' \<noteq> None"
    by (simp add: TTLCache_set_def)
next
  show "store (TTLCache_clear c) = Map.empty"
    by (simp add: TTLCache_clear_def)
qed

theorem TTLCache_get_spec_witness:
  "TTLCache_get \<lparr>ttl = 10, store = [''a'' \<mapsto> (0, 7::int)]\<rparr> 10 ''a''
     = (Some 7, \<lparr>ttl = 10, store = [''a'' \<mapsto> (0, 7::int)]\<rparr>)
   \<and> TTLCache_get \<lparr>ttl = 10, store = [''a'' \<mapsto> (0, 7::int)]\<rparr> 11 ''a''
     = (None, \<lparr>ttl = 10, store = Map.empty\<rparr>)"
proof -
  let ?c = "\<lparr>ttl = 10, store = [''a'' \<mapsto> (0, 7::int)]\<rparr>"
  have fresh: "store ?c ''a'' = Some (0, 7) \<and> (10::real) - 0 \<le> real_of_int (ttl ?c)"
    by simp
  have stale: "\<not> (\<exists>ts v. store ?c ''a'' = Some (ts, v) \<and> (11::real) - ts \<le> real_of_int (ttl ?c))"
    by simp
  have "TTLCache_get ?c 10 ''a'' = (Some 7, ?c)"
    using TTLCache_get_spec[of ?c "''a''" 10] fresh by blast
  moreover have "TTLCache_get ?c 11 ''a'' = (None, ?c\<lparr>store := (store ?c)(''a'' := None)\<rparr>)"
    using TTLCache_get_spec[of ?c "''a''" 11] stale by blast
  ultimately show ?thesis by simp
qed

text \<open>
  Claim C6. In a cache with TTL \<open>T\<close>: after \<^verbatim>\<open>set(k, v)\<close> at time \<open>t0\<close>, a \<^verbatim>\<open>get(k)\<close> at
  a time \<open>t1\<close> with \<open>t1 - t0 \<le> T\<close> (in particular at once, \<open>t1 = t0\<close>, when \<open>0 \<le> T\<close>)
  returns \<open>v\<close>; a \<^verbatim>\<open>get(k)\<close> at \<open>t2\<close> with \<open>t2 - t0 > T\<close> returns \<^verbatim>\<open>None\<close> and removes the
  entry from the store, so the next \<^verbatim>\<open>get(k)\<close>, at any time \<open>t3\<close>, returns \<^verbatim>\<open>None\<close> too;
  and after a new \<^verbatim>\<open>set(k, v')\<close> at \<open>t4\<close> a \<^verbatim>\<open>get(k)\<close> at \<open>t5\<close> with \<open>t5 - t4 \<le> T\<close>
  returns \<open>v'\<close>.
\<close>

theorem TTLCache_set_get_sequence:
  assumes "t1 - t0 \<le> real_of_int (ttl c)"
    and "t2 - t0 > real_of_int (ttl c)"
    and "t5 - t4 \<le> real_of_int (ttl c)"
  shows "(let c1 = TTLCache_set c t0 k v;
              (r1, c1') = TTLCache_get c1 t1 k;
              (r2, c2) = TTLCache_get c1' t2 k;
              (r3, c3) = TTLCache_get c2 t3 k;
              c4 = TTLCache_set c3 t4 k v';
              (r5, c5) = TTLCache_get c4 t5 k
          in r1 = Some v \<and> r2 = None \<and> store c2 k = None \<and> r3 = None
             \<and> store c3 k = None \<and> r5 = Some v')"
proof -
  let ?c1 = "TTLCache_set c t0 k v"
  have s1: "store ?c1 k = Some (t0, v)" and l1: "ttl ?c1 = ttl c"
    by (simp_all add: TTLCache_set_def)
  have g1: "TTLCache_get ?c1 t1 k = (Some v, ?c1)"
    using s1 assms(1) l1 by (simp add: TTLCache_get_fresh)
  let ?c2 = "?c1\<lparr>store := (store ?c1)(k := None)\<rparr>"
  have g2: "TTLCache_get ?c1 t2 k = (None, ?c2)"
    using s1 assms(2) l1 by (simp add: TTLCache_get_stale)
  have s2: "store ?c2 k = None" by simp
  have g3: "TTLCache_get ?c2 t3 k = (None, ?c2)"
    using s2 by (rule TTLCache_get_missing)
  let ?c4 = "TTLCache_set ?c2 t4 k v'"
  have s4: "store ?c4 k = Some (t4, v')" and l4: "ttl ?c4 = ttl c"
    by (simp_all add: TTLCache_set_def)
  have g5: "TTLCache_get ?c4 t5 k = (Some v', ?c4)"
    using s4 assms(3) l4 by (simp add: TTLCache_get_fresh)
  show ?thesis
    unfolding Let_def g1 g2 g3 g5 prod.case by simp
qed

theorem TTLCache_set_get_sequence_witness:
  "(0::real) - 0 \<le> real_of_int (ttl (TTLCache_init 1800 :: int TTLCache))
   \<and> (1801::real) - 0 > real_of_int (ttl (TTLCache_init 1800 :: int TTLCache))
   \<and> (2000::real) - 2000 \<le> real_of_int (ttl (TTLCache_init 1800 :: int TTLCache))
   \<and> (let c1 = TTLCache_set (TTLCache_init 1800) 0 ''k'' (1::int);
              (r1, c1') = TTLCache_get c1 0 ''k'';
              (r2, c2) = TTLCache_get c1' 1801 ''k'';
              (r3, c3) = TTLCache_get c2 1900 ''k'';
              c4 = TTLCache_set c3 2000 ''k'' 2;
              (r5, c5) = TTLCache_get c4 2000 ''k''
          in r1 = Some 1 \<and> r2 = None \<and> store c2 ''k'' = None \<and> r3 = None
             \<and> store c3 ''k'' = None \<and> r5 = Some 2)"
proof -
  have h1: "(0::real) - 0 \<le> real_of_int (ttl (TTLCache_init 1800 :: int TTLCache))"
    and h2: "(1801::real) - 0 > real_of_int (ttl (TTLCache_init 1800 :: int TTLCache))"
    and h3: "(2000::real) - 2000 \<le> real_of_int (ttl (TTLCache_init 1800 :: int TTLCache))"
    by (simp_all add: TTLCache_init_def)
  show ?thesis
    using h1 h2 h3
      TTLCache_set_get_sequence[OF h1 h2 h3, of "''k''" 1 1900 2]
    by simp
qed

section \<open>Resolution of a locality name\<close>

lemma filter_e_pure:
  "(\<And>x. x \<in> set xs \<Longrightarrow> p x = Inr (q x)) \<Longrightarrow> filter_e p xs = Inr (filter q xs)"
  by (induction xs) auto

lemma map_e_pure:
  "(\<And>x. x \<in> set xs \<Longrightarrow> f x = Inr (g x)) \<Longrightarrow> map_e f xs = Inr (map g xs)"
  by (induction xs) auto

lemma local_is_ok:
  "local_ok l \<Longrightarrow> local_is p l = Inr (p (local_name l))"
  by (cases l) (auto simp: local_ok_def local_is_def field_def local_name_def ebind_def lower_def
      split: option.splits json.splits elim: str_or_missing.elims)

lemma in_district_ok:
  "Locality_ok l \<Longrightarrow> in_district B d l = Inr (district l = d)"
  by (cases l) (auto simp: Locality_ok_def local_ok_def in_district_def field_def district_def
      int_field_def ebind_def split: option.splits json.splits elim: int_or_missing.elims)

lemma tie_key_ok:
  "Locality_ok l \<Longrightarrow> tie_key l = Inr (JInt (fst (rank l)), JInt (snd (rank l)))"
  by (cases l) (auto simp: Locality_ok_def local_ok_def tie_key_def field_def rank_def
      int_field_def ebind_def split: option.splits json.splits elim: int_or_missing.elims)

lemma int_keys_map:
  "int_keys (map (\<lambda>l. (JInt (fst (f l)), JInt (snd (f l)))) xs) = Some (map f xs)"
  by (induction xs) auto

lemma insort_key_decorate:
  "insort_key fst (f x, x) (map (\<lambda>y. (f y, y)) ys) = map (\<lambda>y. (f y, y)) (insort_key f x ys)"
  by (induction ys) auto

lemma sort_key_decorate:
  "sort_key fst (map (\<lambda>y. (f y, y)) xs) = map (\<lambda>y. (f y, y)) (sort_key f xs)"
  by (induction xs) (auto simp: insort_key_decorate)

lemma zip_decorate: "zip (map f xs) xs = map (\<lambda>y. (f y, y)) xs"
  by (induction xs) auto

lemma sort_key_not_Nil: "xs \<noteq> [] \<Longrightarrow> sort_key f xs \<noteq> []"
  by (metis length_sort length_0_conv)

lemma hd_decorated:
  assumes "xs \<noteq> []"
  shows "snd (hd (sort_key fst (zip (map f xs) xs))) = hd (sort_key f xs)"
  using assms by (simp add: zip_decorate sort_key_decorate hd_map sort_key_not_Nil)

lemma sorted_first_ok:
  assumes "list_all Locality_ok cands" and "cands \<noteq> []"
  shows "sorted_first cands = Inr (hd (sort_key rank cands))"
proof -
  have k: "map_e tie_key cands = Inr (map (\<lambda>l. (JInt (fst (rank l)), JInt (snd (rank l)))) cands)"
    using assms(1) by (intro map_e_pure tie_key_ok) (simp add: list_all_iff)
  show ?thesis
  proof (cases cands)
    case Nil with assms(2) show ?thesis by simp
  next
    case (Cons x ys)
    show ?thesis
    proof (cases ys)
      case Nil
      with Cons k show ?thesis by (simp add: sorted_first_def ebind_def)
    next
      case (Cons y zs)
      have "sorted_first cands = Inr (snd (hd (sort_key fst (zip (map rank cands) cands))))"
        using k \<open>cands = x # ys\<close> Cons
        by (simp add: sorted_first_def ebind_def int_keys_map del: sort_key_simps zip_Cons_Cons list.map)
      then show ?thesis using assms(2) by (simp add: hd_decorated)
    qed
  qed
qed

lemma least_first_sort_key:
  assumes "cands \<noteq> []"
  shows "least_first cands (hd (sort_key rank cands))"
proof -
  let ?s = "sort_key rank cands"
  let ?r = "hd ?s"
  have ne: "?s \<noteq> []" using assms by (rule sort_key_not_Nil)
  then obtain rest where s: "?s = ?r # rest" by (cases ?s) auto
  have srt: "sorted (map rank ?s)" by (rule sorted_sort_key)
  have low: "rank ?r \<le> rank x" if "x \<in> set cands" for x
  proof -
    from that have "x \<in> set ?s" by simp
    with s have "x = ?r \<or> x \<in> set rest" by (metis set_ConsD)
    moreover have "\<forall>y\<in>set rest. rank ?r \<le> rank y"
      using srt s by (metis (no_types, lifting) image_eqI list.simps(9) list.set_map sorted_simps(2))
    ultimately show ?thesis by auto
  qed
  have "filter (\<lambda>y. rank y = rank ?r) cands = filter (\<lambda>y. rank y = rank ?r) ?s"
    by (simp add: sort_key_stable)
  also have "\<dots> = ?r # filter (\<lambda>y. rank y = rank ?r) rest"
    by (subst s) simp
  finally obtain us vs where split: "cands = us @ ?r # vs"
    and before: "\<forall>u\<in>set us. rank u \<noteq> rank ?r"
    by (auto simp: filter_eq_Cons_iff)
  have i: "length us < length cands" "cands ! length us = ?r"
    by (subst split, simp)+
  have "\<forall>j < length us. rank (cands ! j) \<noteq> rank ?r"
    using before split by (metis nth_append nth_mem)
  moreover have "\<forall>j < length cands. rank ?r \<le> rank (cands ! j)"
    using low by simp
  ultimately show ?thesis
    unfolding least_first_def using i by blast
qed

lemma least_first_unique:
  assumes "least_first cands r" and "least_first cands r'"
  shows "r = r'"
proof -
  from assms(1) obtain i where i: "i < length cands" "cands ! i = r"
    "\<forall>j < length cands. rank r \<le> rank (cands ! j)" "\<forall>j < i. rank (cands ! j) \<noteq> rank r"
    unfolding least_first_def by blast
  from assms(2) obtain k where k: "k < length cands" "cands ! k = r'"
    "\<forall>j < length cands. rank r' \<le> rank (cands ! j)" "\<forall>j < k. rank (cands ! j) \<noteq> rank r'"
    unfolding least_first_def by blast
  have eq: "rank r = rank r'"
    using i(1,2,3) k(1,2,3) by (metis order_antisym)
  have "\<not> i < k" using k(4) i(2) eq by auto
  moreover have "\<not> k < i" using i(4) k(2) eq by auto
  ultimately have "i = k" by simp
  with i(2) k(2) show ?thesis by simp
qed

lemma least_first_mem: "least_first cands r \<Longrightarrow> r \<in> set cands"
  unfolding least_first_def by auto

lemma district_filter_ok:
  assumes "list_all Locality_ok cands"
  shows "district_filter B d cands = Inr (filter (district_is d) cands)"
proof (cases d)
  case None
  moreover have "district_is None = (\<lambda>l. True)"
    by (simp add: district_is_def fun_eq_iff)
  ultimately show ?thesis by (simp add: district_filter_def)
next
  case (Some n)
  have "filter_e (in_district B n) cands = Inr (filter (\<lambda>l. district l = n) cands)"
    using assms by (intro filter_e_pure in_district_ok) (simp add: list_all_iff)
  moreover have "district_is (Some n) = (\<lambda>l. district l = n)"
    by (simp add: district_is_def fun_eq_iff)
  ultimately show ?thesis using Some by (simp add: district_filter_def)
qed

lemma tier_filter_ok:
  assumes "list_all local_ok locs"
  shows "filter_e (local_is p) locs = Inr (filter (\<lambda>l. p (local_name l)) locs)"
  using assms by (intro filter_e_pure local_is_ok) (simp add: list_all_iff)

lemma Locality_ok_local: "Locality_ok l \<Longrightarrow> local_ok l"
  by (simp add: Locality_ok_def)

lemma find_locality_in_ok:
  assumes "list_all Locality_ok locs"
  shows "find_locality_in B (JArr locs) name d = Inr (resolve (lower (strip name)) d locs)"
proof -
  let ?nm = "lower (strip name)"
  have lo: "list_all local_ok locs"
    using assms by (simp add: list_all_iff Locality_ok_local)
  have ok_filter: "list_all Locality_ok (filter q locs)" for q
    using assms by (simp add: list_all_iff)
  have ok_filter2: "list_all Locality_ok (filter q' (filter q locs))" for q q'
    using assms by (simp add: list_all_iff)
  have t1: "filter_e (local_is (\<lambda>s. s = ?nm)) locs = Inr (filter (\<lambda>l. local_name l = ?nm) locs)"
    using lo by (rule tier_filter_ok)
  have t2: "filter_e (local_is (\<lambda>s. str_in ?nm s)) locs = Inr (filter (\<lambda>l. str_in ?nm (local_name l)) locs)"
    using lo by (rule tier_filter_ok)
  have d1: "district_filter B d (filter (\<lambda>l. local_name l = ?nm) locs) = Inr (exact_candidates ?nm d locs)"
    unfolding exact_candidates_def using ok_filter by (rule district_filter_ok)
  have d2: "district_filter B d (filter (\<lambda>l. str_in ?nm (local_name l)) locs) = Inr (contains_candidates ?nm d locs)"
    unfolding contains_candidates_def using ok_filter by (rule district_filter_ok)
  have s1: "exact_candidates ?nm d locs \<noteq> [] \<Longrightarrow>
      sorted_first (exact_candidates ?nm d locs) = Inr (hd (sort_key rank (exact_candidates ?nm d locs)))"
    unfolding exact_candidates_def using ok_filter2 by (rule sorted_first_ok)
  have s2: "contains_candidates ?nm d locs \<noteq> [] \<Longrightarrow>
      sorted_first (contains_candidates ?nm d locs) = Inr (hd (sort_key rank (contains_candidates ?nm d locs)))"
    unfolding contains_candidates_def using ok_filter2 by (rule sorted_first_ok)
  show ?thesis
    using s1 s2
    by (simp add: find_locality_in_def Let_def ebind_def t1 t2 d1 d2 resolve_def)
qed

lemma str_in_refl: "str_in s s"
  by (cases s) auto

lemma str_in_Nil: "str_in [] s"
  by (cases s) auto

lemma strip_spaces:
  assumes "\<forall>c\<in>set s. isspace c"
  shows "strip s = []"
proof -
  have d: "dropWhile isspace s = []" using assms by simp
  show ?thesis unfolding strip_def d by simp
qed

lemma resolve_mem:
  assumes "resolve nm d locs = Some r"
  shows "r \<in> set locs \<and> district_is d r \<and> str_in nm (local_name r)"
proof -
  have "r \<in> set (exact_candidates nm d locs) \<or> r \<in> set (contains_candidates nm d locs)"
    using assms least_first_mem[OF least_first_sort_key]
    by (auto simp: resolve_def split: if_splits)
  then show ?thesis
    by (auto simp: exact_candidates_def contains_candidates_def str_in_refl)
qed

lemma exact_candidates_Some:
  "exact_candidates nm (Some n) locs = filter (\<lambda>l. local_name l = nm \<and> district l = n) locs"
  by (simp add: exact_candidates_def district_is_def conj_commute)

lemma contains_candidates_Some:
  "contains_candidates nm (Some n) locs = filter (\<lambda>l. str_in nm (local_name l) \<and> district l = n) locs"
  by (simp add: contains_candidates_def district_is_def conj_commute)

lemma exact_candidates_None:
  "exact_candidates nm None locs = filter (\<lambda>l. local_name l = nm) locs"
  by (simp add: exact_candidates_def district_is_def)

lemma contains_candidates_None:
  "contains_candidates nm None locs = filter (\<lambda>l. str_in nm (local_name l)) locs"
  by (simp add: contains_candidates_def district_is_def)

lemma find_locality_in_no_match:
  assumes "list_all local_ok locs"
    and "\<forall>l\<in>set locs. \<not> str_in (lower (strip name)) (local_name l)"
  shows "find_locality_in B (JArr locs) name d = Inr None"
proof -
  let ?nm = "lower (strip name)"
  have ne: "\<forall>l\<in>set locs. local_name l \<noteq> ?nm"
    using assms(2) str_in_refl by metis
  have t1: "filter_e (local_is (\<lambda>s. s = ?nm)) locs = Inr []"
    using tier_filter_ok[OF assms(1), of "\<lambda>s. s = ?nm"] ne by (simp add: filter_empty_conv)
  have t2: "filter_e (local_is (\<lambda>s. str_in ?nm s)) locs = Inr []"
    using tier_filter_ok[OF assms(1), of "\<lambda>s. str_in ?nm s"] assms(2) by (simp add: filter_empty_conv)
  have df: "district_filter B d [] = Inr []"
    by (cases d) (simp_all add: district_filter_def)
  show ?thesis
    by (simp add: find_locality_in_def Let_def ebind_def t1 t2 df)
qed

section \<open>The weather-type map\<close>

lemma weather_step:
  assumes "weather_mapping B (it # its) acc = Inr m"
  shows "\<exists>n. weather_id B it = Inr n
     \<and> weather_mapping B its (AList.update n (weather_labels it) acc) = Inr m"
proof (cases it)
  case (JObj kvs)
  with assms show ?thesis
    by (auto simp: ebind_def weather_id_def weather_labels_def field_def
        split: sum.splits option.splits)
qed (use assms in \<open>simp_all add: ebind_def\<close>)

lemma weather_mapping_keeps:
  "weather_mapping B its acc = Inr m \<Longrightarrow> map_of acc n \<noteq> None \<Longrightarrow> map_of m n \<noteq> None"
proof (induction its arbitrary: acc)
  case Nil
  then show ?case by simp
next
  case (Cons it its)
  from weather_step[OF Cons.prems(1)] obtain k where
    k: "weather_mapping B its (AList.update k (weather_labels it) acc) = Inr m" by blast
  have "map_of (AList.update k (weather_labels it) acc) n \<noteq> None"
    using Cons.prems(2) by (simp add: update_conv')
  with Cons.IH[OF k] show ?case by blast
qed

lemma weather_mapping_keys:
  "weather_mapping B its acc = Inr m \<Longrightarrow> it \<in> set its \<Longrightarrow>
     \<exists>n. weather_id B it = Inr n \<and> map_of m n \<noteq> None"
proof (induction its arbitrary: acc)
  case Nil
  then show ?case by simp
next
  case (Cons a its)
  from weather_step[OF Cons.prems(1)] obtain k where
    k: "weather_id B a = Inr k"
       "weather_mapping B its (AList.update k (weather_labels a) acc) = Inr m" by blast
  show ?case
  proof (cases "it = a")
    case True
    have "map_of (AList.update k (weather_labels a) acc) k \<noteq> None"
      by (simp add: update_conv')
    with weather_mapping_keeps[OF k(2)] have "map_of m k \<noteq> None" by blast
    with True k(1) show ?thesis by blast
  next
    case False
    with Cons.prems(2) have "it \<in> set its" by simp
    with Cons.IH[OF k(2)] show ?thesis by blast
  qed
qed

lemma weather_mapping_values:
  "weather_mapping B its acc = Inr m \<Longrightarrow> map_of m n = Some v \<Longrightarrow>
     map_of acc n = Some v \<or> (\<exists>it\<in>set its. weather_id B it = Inr n \<and> v = weather_labels it)"
proof (induction its arbitrary: acc)
  case Nil
  then show ?case by simp
next
  case (Cons a its)
  from weather_step[OF Cons.prems(1)] obtain k where
    k: "weather_id B a = Inr k"
       "weather_mapping B its (AList.update k (weather_labels a) acc) = Inr m" by blast
  from Cons.IH[OF k(2) Cons.prems(2)]
  have "map_of (AList.update k (weather_labels a) acc) n = Some v
      \<or> (\<exists>it\<in>set its. weather_id B it = Inr n \<and> v = weather_labels it)" .
  then show ?case
  proof
    assume "map_of (AList.update k (weather_labels a) acc) n = Some v"
    then have "(n = k \<and> v = weather_labels a) \<or> map_of acc n = Some v"
      by (auto simp: update_conv' split: if_splits)
    with k(1) show ?thesis by auto
  next
    assume "\<exists>it\<in>set its. weather_id B it = Inr n \<and> v = weather_labels it"
    then show ?thesis by auto
  qed
qed

lemma get_weather_types_miss:
  assumes "TTLCache_get c t1 ''weather_types'' = (None, c1)"
    and "fetch_weather_types B cl = Inr m"
  shows "get_weather_types B cl c t1 t2 = (Inr m, TTLCache_set c1 t2 ''weather_types'' m)"
  using assms by (simp add: get_weather_types_def)

lemma get_weather_types_hit:
  assumes "store c ''weather_types'' = Some (ts, m)" and "t - ts \<le> real_of_int (ttl c)"
  shows "get_weather_types B cl c t t' = (Inr m, c)"
  using TTLCache_get_fresh[OF assms] by (simp add: get_weather_types_def)

section \<open>The handlers\<close>










lemma normalize_field_obj:
  "normalize_field B (JObj kvs) k =
     Inr (JObj (case map_of kvs k of
                  None \<Rightarrow> kvs
                | Some v \<Rightarrow> if v = JNull then kvs
                            else (case py_float B v of
                                    Inl e \<Rightarrow> kvs
                                  | Inr x \<Rightarrow> AList.update k (JFloat x) kvs)))"
  by (simp add: normalize_field_def ebind_def split: option.splits sum.splits)

lemma normalize_keys_obj: "\<exists>kvs'. normalize_keys B ks (JObj kvs) = Inr (JObj kvs')"
proof (induction ks arbitrary: kvs)
  case Nil
  then show ?case by simp
next
  case (Cons k ks)
  obtain kvs1 where "normalize_field B (JObj kvs) k = Inr (JObj kvs1)"
    using normalize_field_obj[of B kvs k] by blast
  with Cons[of kvs1] show ?case by (simp add: ebind_def)
qed

lemma normalize_record_obj:
  assumes "is_obj d"
  shows "\<exists>d'. normalize_record B d = Inr d' \<and> is_obj d'"
proof -
  from assms obtain kvs where "d = JObj kvs" by (cases d) simp_all
  with normalize_keys_obj[of B _ kvs] show ?thesis
    unfolding normalize_record_def by (metis is_obj.simps(1))
qed

lemma normalize_records_total:
  "list_all is_obj ds \<Longrightarrow> \<exists>ds'. map_e (normalize_record B) ds = Inr ds'"
proof (induction ds)
  case Nil
  then show ?case by simp
next
  case (Cons d ds)
  then obtain d' ds' where "normalize_record B d = Inr d'" "map_e (normalize_record B) ds = Inr ds'"
    using normalize_record_obj[of d B] by auto
  then show ?case by simp
qed

lemma daily_forecast_tolerant:
  assumes "resolve_id B R gid locality = Inr g"
    and "forecast R g = Inr data"
    and "py_get data ''data'' (JArr []) = Inr (JArr ds)"
    and "list_all is_obj ds"
  shows "\<exists>doc. daily_forecast B R gid locality = JSONResponse doc"
proof -
  from normalize_records_total[OF assms(4)] obtain ds' where
    "map_e (normalize_record B) ds = Inr ds'" by blast
  with assms(1-3) have "daily_forecast B R gid locality =
      JSONResponse (case data of
            JObj kvs \<Rightarrow> if map_of kvs ''data'' = None then data
                        else JObj (AList.update ''data'' (JArr ds') kvs)
          | _ \<Rightarrow> data)"
    by (simp add: daily_forecast_def ebind_def split: json.splits)
  then show ?thesis by (rule exI)
qed

lemma ex_float: "float_of_str example_builtins ''12.5'' = Some (Finite (25/2))"
  "float_of_str example_builtins ''20.1'' = Some (Finite (201/10))"
  "float_of_str example_builtins ''0'' = Some (Finite 0)"
  "float_of_str example_builtins ''n/a'' = None"
  by (simp_all add: example_builtins_def)

section \<open>The claims about the resolution\<close>

text \<open>
  Claim C2, as the specification states it, fails: a record without \<^verbatim>\<open>globalIdLocal\<close>
  gets the key 1000000 and is returned ahead of a record of the same \<^verbatim>\<open>idConcelho\<close>
  whose \<^verbatim>\<open>globalIdLocal\<close> is 1110600, so a record that lacks a field does not sort after
  every record that has it.
\<close>

theorem tie_break_sentinel_counterexample:
  "find_locality_in example_builtins
     (JArr [JObj [(''local'', JStr ''Lisboa''), (''idConcelho'', JInt 6), (''globalIdLocal'', JInt 1110600)],
            JObj [(''local'', JStr ''Lisboa''), (''idConcelho'', JInt 6)]])
     ''Lisboa'' None
   = Inr (Some (JObj [(''local'', JStr ''Lisboa''), (''idConcelho'', JInt 6)]))"
  by code_simp

text \<open>
  Claim C2, amended. On records that are \<open>Locality_ok\<close> the resolution raises nothing.
  When candidates survive the exact tier (and the district filter, if one is given),
  it returns the first of them in list order whose pair (\<^verbatim>\<open>idConcelho\<close>,
  \<^verbatim>\<open>globalIdLocal\<close>) is lexicographically smallest; when none survives the exact tier
  and candidates survive the substring tier, it returns the first of those with the
  smallest pair; when none survives either tier it returns \<^verbatim>\<open>None\<close>. In the pair a
  missing field counts as 1000000, so a record that lacks a field sorts after the
  records whose value of that field is below 1000000, not after all records that have
  the field.
\<close>

theorem find_locality_tie_break:
  assumes "list_all Locality_ok locs"
  shows "\<exists>res. find_locality_in B (JArr locs) name d = Inr res
     \<and> (exact_candidates (lower (strip name)) d locs \<noteq> [] \<longrightarrow>
          (\<exists>r. res = Some r \<and> least_first (exact_candidates (lower (strip name)) d locs) r))
     \<and> (exact_candidates (lower (strip name)) d locs = []
          \<and> contains_candidates (lower (strip name)) d locs \<noteq> [] \<longrightarrow>
          (\<exists>r. res = Some r \<and> least_first (contains_candidates (lower (strip name)) d locs) r))
     \<and> (exact_candidates (lower (strip name)) d locs = []
          \<and> contains_candidates (lower (strip name)) d locs = [] \<longrightarrow> res = None)
     \<and> (\<forall>l. rank l = (case field l ''idConcelho'' of Some (JInt a) \<Rightarrow> a | _ \<Rightarrow> 1000000,
                        case field l ''globalIdLocal'' of Some (JInt b) \<Rightarrow> b | _ \<Rightarrow> 1000000))"
proof -
  let ?nm = "lower (strip name)"
  let ?e = "exact_candidates ?nm d locs"
  let ?s = "contains_candidates ?nm d locs"
  let ?res = "resolve ?nm d locs"
  have eq: "find_locality_in B (JArr locs) name d = Inr ?res"
    using assms by (rule find_locality_in_ok)
  have a: "?e \<noteq> [] \<longrightarrow> (\<exists>r. ?res = Some r \<and> least_first ?e r)"
    using least_first_sort_key[of ?e] by (simp add: resolve_def)
  have b: "?e = [] \<and> ?s \<noteq> [] \<longrightarrow> (\<exists>r. ?res = Some r \<and> least_first ?s r)"
    using least_first_sort_key[of ?s] by (simp add: resolve_def)
  have c: "?e = [] \<and> ?s = [] \<longrightarrow> ?res = None"
    by (simp add: resolve_def)
  have k: "\<forall>l. rank l = (case field l ''idConcelho'' of Some (JInt a) \<Rightarrow> a | _ \<Rightarrow> 1000000,
                        case field l ''globalIdLocal'' of Some (JInt b) \<Rightarrow> b | _ \<Rightarrow> 1000000)"
    by (simp add: rank_def int_field_def)
  from eq a b c k show ?thesis by blast
qed

theorem find_locality_tie_break_witness:
  "list_all Locality_ok
     [JObj [(''local'', JStr ''Lagoa''), (''idConcelho'', JInt 5), (''globalIdLocal'', JInt 40)],
      JObj [(''local'', JStr ''Lagoa''), (''idConcelho'', JInt 3), (''globalIdLocal'', JInt 40)]]
   \<and> find_locality_in example_builtins
       (JArr [JObj [(''local'', JStr ''Lagoa''), (''idConcelho'', JInt 5), (''globalIdLocal'', JInt 40)],
              JObj [(''local'', JStr ''Lagoa''), (''idConcelho'', JInt 3), (''globalIdLocal'', JInt 40)]])
       ''lagoa'' None
     = Inr (Some (JObj [(''local'', JStr ''Lagoa''), (''idConcelho'', JInt 3), (''globalIdLocal'', JInt 40)]))
   \<and> find_locality_in example_builtins
       (JArr [JObj [(''local'', JStr ''Lagoa''), (''idConcelho'', JInt 5), (''globalIdLocal'', JInt 40)],
              JObj [(''local'', JStr ''Lagoa''), (''idConcelho'', JInt 3), (''globalIdLocal'', JInt 40)]])
       ''ago'' None
     = Inr (Some (JObj [(''local'', JStr ''Lagoa''), (''idConcelho'', JInt 3), (''globalIdLocal'', JInt 40)]))
   \<and> find_locality_in example_builtins
       (JArr [JObj [(''local'', JStr ''Lagoa''), (''idConcelho'', JInt 5), (''globalIdLocal'', JInt 40)],
              JObj [(''local'', JStr ''Lagoa''), (''idConcelho'', JInt 3), (''globalIdLocal'', JInt 40)]])
       ''faro'' None
     = Inr None"
proof -
  let ?a = "JObj [(''local'', JStr ''Lagoa''), (''idConcelho'', JInt 5), (''globalIdLocal'', JInt 40)]"
  let ?b = "JObj [(''local'', JStr ''Lagoa''), (''idConcelho'', JInt 3), (''globalIdLocal'', JInt 40)]"
  have ok: "list_all Locality_ok [?a, ?b]" by code_simp
  have rk: "rank ?b < rank ?a" by code_simp
  have pick: "r = ?b" if "least_first [?a, ?b] r" for r
  proof -
    from that have "r \<in> set [?a, ?b]" by (rule least_first_mem)
    moreover from that have "rank r \<le> rank ([?a, ?b] ! 1)"
      unfolding least_first_def by auto
    ultimately show ?thesis using rk by auto
  qed
  have e1: "exact_candidates (lower (strip ''lagoa'')) None [?a, ?b] = [?a, ?b]" by code_simp
  have e2: "exact_candidates (lower (strip ''ago'')) None [?a, ?b] = []" by code_simp
  have s2: "contains_candidates (lower (strip ''ago'')) None [?a, ?b] = [?a, ?b]" by code_simp
  have e3: "exact_candidates (lower (strip ''faro'')) None [?a, ?b] = []" by code_simp
  have s3: "contains_candidates (lower (strip ''faro'')) None [?a, ?b] = []" by code_simp
  from find_locality_tie_break[OF ok, of example_builtins "''lagoa''" None]
  obtain r where "find_locality_in example_builtins (JArr [?a, ?b]) ''lagoa'' None = Inr (Some r)"
    "least_first [?a, ?b] r"
    unfolding e1 by auto
  with pick have one: "find_locality_in example_builtins (JArr [?a, ?b]) ''lagoa'' None = Inr (Some ?b)"
    by simp
  from find_locality_tie_break[OF ok, of example_builtins "''ago''" None]
  obtain r' where "find_locality_in example_builtins (JArr [?a, ?b]) ''ago'' None = Inr (Some r')"
    "least_first [?a, ?b] r'"
    unfolding e2 s2 by auto
  with pick have two: "find_locality_in example_builtins (JArr [?a, ?b]) ''ago'' None = Inr (Some ?b)"
    by simp
  from find_locality_tie_break[OF ok, of example_builtins "''faro''" None]
  have three: "find_locality_in example_builtins (JArr [?a, ?b]) ''faro'' None = Inr None"
    unfolding e3 s3 by auto
  from ok one two three show ?thesis by simp
qed

text \<open>
  Claim C4, as the specification states it, fails when a district is given: the exact
  match \<open>Porto\<close> lies in district 13, the search for \<open>porto\<close> in district 32 falls
  through to the substring tier and returns \<open>Porto Santo\<close>, a substring-only match,
  although an exact match exists.
\<close>

theorem tier_precedence_counterexample:
  "find_locality_in example_builtins
     (JArr [JObj [(''local'', JStr ''Porto''), (''idDistrito'', JInt 13),
                  (''idConcelho'', JInt 12), (''globalIdLocal'', JInt 1131200)],
            JObj [(''local'', JStr ''Porto Santo''), (''idDistrito'', JInt 32),
                  (''idConcelho'', JInt 1), (''globalIdLocal'', JInt 2320100)]])
     ''porto'' (Some 32)
   = Inr (Some (JObj [(''local'', JStr ''Porto Santo''), (''idDistrito'', JInt 32),
                      (''idConcelho'', JInt 1), (''globalIdLocal'', JInt 2320100)]))"
  by code_simp

text \<open>
  Claim C4, amended. Whenever at least one record matches the normalised name exactly
  (after trimming and lower-casing the input) and passes the district filter, if one
  is given, the result is one of these exact matches, the first with the least key, so
  no substring-only match is returned. For the localities \<open>Porto\<close> (\<^verbatim>\<open>idConcelho\<close> 1,
  \<^verbatim>\<open>globalIdLocal\<close> 10) and \<open>Porto Santo\<close> (2, 20), the name \<open>porto\<close> resolves to the
  record with \<^verbatim>\<open>globalIdLocal\<close> 10.
\<close>

theorem find_locality_exact_first:
  assumes "list_all Locality_ok locs"
    and "l \<in> set locs" and "local_name l = lower (strip name)" and "district_is d l"
  shows "\<exists>r. find_locality_in B (JArr locs) name d = Inr (Some r)
     \<and> r \<in> set locs \<and> local_name r = lower (strip name) \<and> district_is d r
     \<and> least_first (exact_candidates (lower (strip name)) d locs) r"
proof -
  let ?nm = "lower (strip name)"
  let ?e = "exact_candidates ?nm d locs"
  have "l \<in> set ?e" using assms(2-4) by (simp add: exact_candidates_def)
  then have ne: "?e \<noteq> []" by auto
  let ?r = "hd (sort_key rank ?e)"
  have lf: "least_first ?e ?r" using ne by (rule least_first_sort_key)
  then have "?r \<in> set ?e" by (rule least_first_mem)
  then have mem: "?r \<in> set locs \<and> local_name ?r = ?nm \<and> district_is d ?r"
    by (auto simp: exact_candidates_def)
  have "find_locality_in B (JArr locs) name d = Inr (Some ?r)"
    using find_locality_in_ok[OF assms(1), of B name d] ne by (simp add: resolve_def)
  with lf mem show ?thesis by blast
qed

theorem find_locality_exact_first_witness:
  "list_all Locality_ok
     [JObj [(''local'', JStr ''Porto''), (''idConcelho'', JInt 1), (''globalIdLocal'', JInt 10)],
      JObj [(''local'', JStr ''Porto Santo''), (''idConcelho'', JInt 2), (''globalIdLocal'', JInt 20)]]
   \<and> local_name (JObj [(''local'', JStr ''Porto''), (''idConcelho'', JInt 1), (''globalIdLocal'', JInt 10)])
       = lower (strip ''porto'')
   \<and> find_locality_in example_builtins
       (JArr [JObj [(''local'', JStr ''Porto''), (''idConcelho'', JInt 1), (''globalIdLocal'', JInt 10)],
              JObj [(''local'', JStr ''Porto Santo''), (''idConcelho'', JInt 2), (''globalIdLocal'', JInt 20)]])
       ''porto'' None
     = Inr (Some (JObj [(''local'', JStr ''Porto''), (''idConcelho'', JInt 1), (''globalIdLocal'', JInt 10)]))"
proof -
  let ?p = "JObj [(''local'', JStr ''Porto''), (''idConcelho'', JInt 1), (''globalIdLocal'', JInt 10)]"
  let ?s = "JObj [(''local'', JStr ''Porto Santo''), (''idConcelho'', JInt 2), (''globalIdLocal'', JInt 20)]"
  have ok: "list_all Locality_ok [?p, ?s]" by code_simp
  have m: "?p \<in> set [?p, ?s]" by simp
  have n: "local_name ?p = lower (strip ''porto'')" by code_simp
  have ns: "local_name ?s \<noteq> lower (strip ''porto'')" by code_simp
  have dd: "district_is None ?p" by (simp add: district_is_def)
  from find_locality_exact_first[OF ok m n dd, of example_builtins]
  obtain r where r: "find_locality_in example_builtins (JArr [?p, ?s]) ''porto'' None = Inr (Some r)"
    "r \<in> set [?p, ?s]" "local_name r = lower (strip ''porto'')" by blast
  from r(2,3) ns have "r = ?p" by auto
  with r(1) ok n show ?thesis by simp
qed

text \<open>
  Claim C5. With a district \<open>n\<close>, both tiers keep only the records that the filter
  \<^verbatim>\<open>int(l.get("idDistrito", -1)) == n\<close> accepts (\<open>district l = n\<close>; a record without the
  field is read as district \<open>-1\<close>): a record that is returned lies in the district; when
  the exact matches hold a record of the district the result is taken from them; when
  they hold none, the result is taken from the substring matches of the same district;
  and when these are empty too, the result is \<^verbatim>\<open>None\<close>.
\<close>

theorem find_locality_district:
  assumes "list_all Locality_ok locs"
  shows "\<exists>res. find_locality_in B (JArr locs) name (Some n) = Inr res
     \<and> (\<forall>r. res = Some r \<longrightarrow> r \<in> set locs \<and> district r = n)
     \<and> (filter (\<lambda>l. local_name l = lower (strip name) \<and> district l = n) locs \<noteq> [] \<longrightarrow>
          (\<exists>r. res = Some r
             \<and> least_first (filter (\<lambda>l. local_name l = lower (strip name) \<and> district l = n) locs) r))
     \<and> (filter (\<lambda>l. local_name l = lower (strip name) \<and> district l = n) locs = []
          \<and> filter (\<lambda>l. str_in (lower (strip name)) (local_name l) \<and> district l = n) locs \<noteq> [] \<longrightarrow>
          (\<exists>r. res = Some r
             \<and> least_first (filter (\<lambda>l. str_in (lower (strip name)) (local_name l) \<and> district l = n) locs) r))
     \<and> (filter (\<lambda>l. local_name l = lower (strip name) \<and> district l = n) locs = []
          \<and> filter (\<lambda>l. str_in (lower (strip name)) (local_name l) \<and> district l = n) locs = [] \<longrightarrow>
          res = None)"
proof -
  let ?nm = "lower (strip name)"
  let ?e = "filter (\<lambda>l. local_name l = ?nm \<and> district l = n) locs"
  let ?s = "filter (\<lambda>l. str_in ?nm (local_name l) \<and> district l = n) locs"
  let ?res = "resolve ?nm (Some n) locs"
  have eq: "find_locality_in B (JArr locs) name (Some n) = Inr ?res"
    using assms by (rule find_locality_in_ok)
  have res: "?res = (if ?e \<noteq> [] then Some (hd (sort_key rank ?e))
                     else if ?s \<noteq> [] then Some (hd (sort_key rank ?s)) else None)"
    by (simp only: resolve_def exact_candidates_Some contains_candidates_Some)
  have a: "\<forall>r. ?res = Some r \<longrightarrow> r \<in> set locs \<and> district r = n"
    using resolve_mem[of ?nm "Some n" locs] by (auto simp: district_is_def)
  have b: "?e \<noteq> [] \<longrightarrow> (\<exists>r. ?res = Some r \<and> least_first ?e r)"
    using least_first_sort_key[of ?e] by (simp add: res)
  have c: "?e = [] \<and> ?s \<noteq> [] \<longrightarrow> (\<exists>r. ?res = Some r \<and> least_first ?s r)"
    using least_first_sort_key[of ?s] by (simp add: res)
  have d: "?e = [] \<and> ?s = [] \<longrightarrow> ?res = None"
    by (simp add: res)
  from eq a b c d show ?thesis by blast
qed

theorem find_locality_district_witness:
  "list_all Locality_ok
     [JObj [(''local'', JStr ''Lagoa''), (''idDistrito'', JInt 8), (''idConcelho'', JInt 6), (''globalIdLocal'', JInt 1)],
      JObj [(''local'', JStr ''Lagoa''), (''idDistrito'', JInt 42), (''idConcelho'', JInt 1), (''globalIdLocal'', JInt 2)]]
   \<and> find_locality_in example_builtins
       (JArr [JObj [(''local'', JStr ''Lagoa''), (''idDistrito'', JInt 8), (''idConcelho'', JInt 6), (''globalIdLocal'', JInt 1)],
              JObj [(''local'', JStr ''Lagoa''), (''idDistrito'', JInt 42), (''idConcelho'', JInt 1), (''globalIdLocal'', JInt 2)]])
       ''Lagoa'' (Some 8)
     = Inr (Some (JObj [(''local'', JStr ''Lagoa''), (''idDistrito'', JInt 8), (''idConcelho'', JInt 6), (''globalIdLocal'', JInt 1)]))
   \<and> find_locality_in example_builtins
       (JArr [JObj [(''local'', JStr ''Lagoa''), (''idDistrito'', JInt 8), (''idConcelho'', JInt 6), (''globalIdLocal'', JInt 1)],
              JObj [(''local'', JStr ''Lagoa''), (''idDistrito'', JInt 42), (''idConcelho'', JInt 1), (''globalIdLocal'', JInt 2)]])
       ''Lagoa'' (Some 11)
     = Inr None"
proof -
  let ?a = "JObj [(''local'', JStr ''Lagoa''), (''idDistrito'', JInt 8), (''idConcelho'', JInt 6), (''globalIdLocal'', JInt 1)]"
  let ?b = "JObj [(''local'', JStr ''Lagoa''), (''idDistrito'', JInt 42), (''idConcelho'', JInt 1), (''globalIdLocal'', JInt 2)]"
  have ok: "list_all Locality_ok [?a, ?b]" by code_simp
  have e8: "filter (\<lambda>l. local_name l = lower (strip ''Lagoa'') \<and> district l = 8) [?a, ?b] = [?a]"
    by code_simp
  have e11: "filter (\<lambda>l. local_name l = lower (strip ''Lagoa'') \<and> district l = 11) [?a, ?b] = []"
    by code_simp
  have s11: "filter (\<lambda>l. str_in (lower (strip ''Lagoa'')) (local_name l) \<and> district l = 11) [?a, ?b] = []"
    by code_simp
  from find_locality_district[OF ok, of example_builtins "''Lagoa''" 8]
  obtain r where r: "find_locality_in example_builtins (JArr [?a, ?b]) ''Lagoa'' (Some 8) = Inr (Some r)"
    "least_first [?a] r"
    unfolding e8 by auto
  from r(2) have "r = ?a" by (auto dest: least_first_mem)
  with r(1) have one: "find_locality_in example_builtins (JArr [?a, ?b]) ''Lagoa'' (Some 8) = Inr (Some ?a)"
    by simp
  from find_locality_district[OF ok, of example_builtins "''Lagoa''" 11]
  have two: "find_locality_in example_builtins (JArr [?a, ?b]) ''Lagoa'' (Some 11) = Inr None"
    unfolding e11 s11 by auto
  from ok one two show ?thesis by simp
qed

text \<open>
  Claim C9. When \<^verbatim>\<open>get_localities\<close> has returned the list and the normalised name
  matches no record, neither by equality nor as a substring, \<^verbatim>\<open>find_locality\<close> returns
  \<^verbatim>\<open>None\<close> and raises nothing, whatever the district argument is. The records are
  dictionaries whose \<^verbatim>\<open>local\<close>, when present, is a string.
\<close>

theorem find_locality_not_found:
  assumes "get_localities cl c t_get t_set = (Inr (JArr locs), c')"
    and "list_all local_ok locs"
    and "\<forall>l\<in>set locs. local_name l \<noteq> lower (strip name)
                       \<and> \<not> str_in (lower (strip name)) (local_name l)"
  shows "find_locality B cl c t_get t_set name d = (Inr None, c')"
proof -
  have "find_locality_in B (JArr locs) name d = Inr None"
    using assms(2,3) by (intro find_locality_in_no_match) auto
  with assms(1) show ?thesis by (simp add: find_locality_def)
qed

theorem find_locality_not_found_witness:
  "get_localities \<lparr>base_url = ''https://api.ipma.pt/open-data'', fetch = (\<lambda>url. Inl TransportError)\<rparr>
       \<lparr>ttl = 43200, store = [''localities'' \<mapsto> (0, JArr
          [JObj [(''local'', JStr ''Porto''), (''idConcelho'', JInt 1), (''globalIdLocal'', JInt 10)],
           JObj [(''local'', JStr ''Porto Santo''), (''idConcelho'', JInt 2), (''globalIdLocal'', JInt 20)]])]\<rparr>
       60 61
     = (Inr (JArr
          [JObj [(''local'', JStr ''Porto''), (''idConcelho'', JInt 1), (''globalIdLocal'', JInt 10)],
           JObj [(''local'', JStr ''Porto Santo''), (''idConcelho'', JInt 2), (''globalIdLocal'', JInt 20)]]),
        \<lparr>ttl = 43200, store = [''localities'' \<mapsto> (0, JArr
          [JObj [(''local'', JStr ''Porto''), (''idConcelho'', JInt 1), (''globalIdLocal'', JInt 10)],
           JObj [(''local'', JStr ''Porto Santo''), (''idConcelho'', JInt 2), (''globalIdLocal'', JInt 20)]])]\<rparr>)
   \<and> fst (find_locality example_builtins
       \<lparr>base_url = ''https://api.ipma.pt/open-data'', fetch = (\<lambda>url. Inl TransportError)\<rparr>
       \<lparr>ttl = 43200, store = [''localities'' \<mapsto> (0, JArr
          [JObj [(''local'', JStr ''Porto''), (''idConcelho'', JInt 1), (''globalIdLocal'', JInt 10)],
           JObj [(''local'', JStr ''Porto Santo''), (''idConcelho'', JInt 2), (''globalIdLocal'', JInt 20)]])]\<rparr>
       60 61 ''zzzznotreal'' None) = Inr None"
proof -
  let ?locs = "[JObj [(''local'', JStr ''Porto''), (''idConcelho'', JInt 1), (''globalIdLocal'', JInt 10)],
           JObj [(''local'', JStr ''Porto Santo''), (''idConcelho'', JInt 2), (''globalIdLocal'', JInt 20)]]"
  let ?cl = "\<lparr>base_url = ''https://api.ipma.pt/open-data'', fetch = (\<lambda>url. Inl TransportError)\<rparr>"
  let ?c = "\<lparr>ttl = 43200, store = [''localities'' \<mapsto> (0, JArr ?locs)]\<rparr>"
  have g: "get_localities ?cl ?c 60 61 = (Inr (JArr ?locs), ?c)"
    by (simp add: get_localities_def TTLCache_get_def)
  have ok: "list_all local_ok ?locs" by code_simp
  have a: "list_all (\<lambda>l. local_name l \<noteq> lower (strip ''zzzznotreal'')
             \<and> \<not> str_in (lower (strip ''zzzznotreal'')) (local_name l)) ?locs"
    by code_simp
  then have no: "\<forall>l\<in>set ?locs. local_name l \<noteq> lower (strip ''zzzznotreal'')
             \<and> \<not> str_in (lower (strip ''zzzznotreal'')) (local_name l)"
    by (simp only: list_all_iff)
  from find_locality_not_found[OF g ok no, of example_builtins None] g
  show ?thesis by simp
qed

text \<open>
  Claim C10, as stated, fails when a record has an empty \<^verbatim>\<open>local\<close>: for a blank name
  the exact tier matches that record and returns it, although another record has a
  smaller key.
\<close>

theorem blank_name_counterexample:
  "find_locality_in example_builtins
     (JArr [JObj [(''local'', JStr ''Porto''), (''idConcelho'', JInt 1), (''globalIdLocal'', JInt 10)],
            JObj [(''local'', JStr ''''), (''idConcelho'', JInt 5), (''globalIdLocal'', JInt 50)]])
     ''  '' None
   = Inr (Some (JObj [(''local'', JStr ''''), (''idConcelho'', JInt 5), (''globalIdLocal'', JInt 50)]))"
  by code_simp

text \<open>
  Claim C10, amended. For a name that is empty or consists of white space only, and
  without a district, \<^verbatim>\<open>find_locality\<close> on a non-empty list of records never answers
  \<^verbatim>\<open>None\<close>. When no record has an empty (or missing) \<^verbatim>\<open>local\<close>, the substring tier
  matches every record and the first record with the smallest key of the whole list is
  returned; when some record has one, the exact tier matches these records and the
  first with the smallest key among them is returned.
\<close>

theorem find_locality_blank_name:
  assumes "list_all Locality_ok locs" and "locs \<noteq> []" and "\<forall>c\<in>set name. isspace c"
  shows "\<exists>r. find_locality_in B (JArr locs) name None = Inr (Some r)
     \<and> (if \<exists>l\<in>set locs. local_name l = []
         then least_first (filter (\<lambda>l. local_name l = []) locs) r
         else least_first locs r)"
proof -
  have nm: "lower (strip name) = []"
    using assms(3) by (simp add: strip_spaces lower_def)
  have eq: "find_locality_in B (JArr locs) name None = Inr (resolve [] None locs)"
    using find_locality_in_ok[OF assms(1), of B name None] nm by simp
  have all: "contains_candidates [] None locs = locs"
    by (simp add: contains_candidates_None str_in_Nil)
  show ?thesis
  proof (cases "\<exists>l\<in>set locs. local_name l = []")
    case True
    then have ne: "filter (\<lambda>l. local_name l = []) locs \<noteq> []"
      by (simp add: filter_empty_conv)
    then have "resolve [] None locs = Some (hd (sort_key rank (filter (\<lambda>l. local_name l = []) locs)))"
      by (simp add: resolve_def exact_candidates_None)
    with eq True least_first_sort_key[OF ne] show ?thesis by simp
  next
    case False
    then have "filter (\<lambda>l. local_name l = []) locs = []"
      by (simp add: filter_empty_conv)
    then have "resolve [] None locs = Some (hd (sort_key rank locs))"
      using assms(2) by (simp add: resolve_def exact_candidates_None all)
    with eq False least_first_sort_key[OF assms(2)] show ?thesis by simp
  qed
qed

theorem find_locality_blank_name_witness:
  "list_all Locality_ok
     [JObj [(''local'', JStr ''Porto Santo''), (''idConcelho'', JInt 2), (''globalIdLocal'', JInt 20)],
      JObj [(''local'', JStr ''Porto''), (''idConcelho'', JInt 1), (''globalIdLocal'', JInt 10)]]
   \<and> list_all isspace ''  ''
   \<and> find_locality_in example_builtins
       (JArr [JObj [(''local'', JStr ''Porto Santo''), (''idConcelho'', JInt 2), (''globalIdLocal'', JInt 20)],
              JObj [(''local'', JStr ''Porto''), (''idConcelho'', JInt 1), (''globalIdLocal'', JInt 10)]])
       ''  '' None
     = Inr (Some (JObj [(''local'', JStr ''Porto''), (''idConcelho'', JInt 1), (''globalIdLocal'', JInt 10)]))"
proof -
  let ?s = "JObj [(''local'', JStr ''Porto Santo''), (''idConcelho'', JInt 2), (''globalIdLocal'', JInt 20)]"
  let ?p = "JObj [(''local'', JStr ''Porto''), (''idConcelho'', JInt 1), (''globalIdLocal'', JInt 10)]"
  have ok: "list_all Locality_ok [?s, ?p]" by code_simp
  have ne: "[?s, ?p] \<noteq> []" by simp
  have sp: "\<forall>c\<in>set ''  ''. isspace c" by code_simp
  have names: "\<not> (\<exists>l\<in>set [?s, ?p]. local_name l = [])" by code_simp
  have rk: "rank ?p < rank ?s" by code_simp
  from find_locality_blank_name[OF ok ne sp, of example_builtins] names
  obtain r where r: "find_locality_in example_builtins (JArr [?s, ?p]) ''  '' None = Inr (Some r)"
    "least_first [?s, ?p] r" by auto
  from r(2) have "r \<in> set [?s, ?p]" by (rule least_first_mem)
  moreover from r(2) have "rank r \<le> rank ?p"
    unfolding least_first_def by (metis length_Cons list.size(3) lessI nth_Cons_0 nth_Cons_Suc One_nat_def)
  ultimately have "r = ?p" using rk by auto
  moreover have "list_all isspace ''  ''" by code_simp
  ultimately show ?thesis using r(1) ok by simp
qed

section \<open>The claims about the weather types and the handlers\<close>

text \<open>
  Claim C7. On a cache miss, when the fetch and the transformation succeed,
  \<^verbatim>\<open>get_weather_types\<close> returns the map \<open>m\<close> built from the raw array: every key of \<open>m\<close>
  is the integer \<^verbatim>\<open>idWeatherType\<close> of an item and its value is the pair of labels
  \<open>{pt, en}\<close> of an item with that key, and every item's key is in \<open>m\<close>. The value
  stored under \<open>weather_types\<close> is this map \<open>m\<close>, not the raw array, so a later call that
  hits the cache (within the TTL, whatever the network would answer) returns the same
  map.
\<close>

theorem get_weather_types_transformed:
  assumes "fst (TTLCache_get c t1 ''weather_types'') = None"
    and "fetch cl (base_url cl @ ''/weather-type-classe.json'') = Inr data"
    and "py_get data ''data'' (JArr []) = Inr raw"
    and "py_iter raw = Inr its"
    and "weather_mapping B its [] = Inr m"
  shows "\<exists>c2. get_weather_types B cl c t1 t2 = (Inr m, c2)
     \<and> store c2 ''weather_types'' = Some (t2, m)
     \<and> (\<forall>n v. map_of m n = Some v \<longrightarrow>
           (\<exists>it\<in>set its. weather_id B it = Inr n \<and> v = weather_labels it))
     \<and> (\<forall>it\<in>set its. \<exists>n. weather_id B it = Inr n \<and> map_of m n \<noteq> None)
     \<and> (\<forall>t3 t4 cl'. t3 - t2 \<le> real_of_int (ttl c) \<longrightarrow>
           get_weather_types B cl' c2 t3 t4 = (Inr m, c2))"
proof -
  obtain r c1 where g: "TTLCache_get c t1 ''weather_types'' = (r, c1)"
    by (cases "TTLCache_get c t1 ''weather_types''")
  with assms(1) have g': "TTLCache_get c t1 ''weather_types'' = (None, c1)" by simp
  have c1: "ttl c1 = ttl c"
    using TTLCache_get_ttl[of c t1 "''weather_types''"] g by simp
  have f: "fetch_weather_types B cl = Inr m"
    using assms(2-5) by (simp add: fetch_weather_types_def ebind_def)
  let ?c2 = "TTLCache_set c1 t2 ''weather_types'' m"
  have run: "get_weather_types B cl c t1 t2 = (Inr m, ?c2)"
    using g' f by (rule get_weather_types_miss)
  have st: "store ?c2 ''weather_types'' = Some (t2, m)" and tl: "ttl ?c2 = ttl c"
    using c1 by (simp_all add: TTLCache_set_def)
  have vals: "\<forall>n v. map_of m n = Some v \<longrightarrow>
      (\<exists>it\<in>set its. weather_id B it = Inr n \<and> v = weather_labels it)"
    using weather_mapping_values[OF assms(5)] by fastforce
  have keys: "\<forall>it\<in>set its. \<exists>n. weather_id B it = Inr n \<and> map_of m n \<noteq> None"
    using weather_mapping_keys[OF assms(5)] by blast
  have hit: "\<forall>t3 t4 cl'. t3 - t2 \<le> real_of_int (ttl c) \<longrightarrow>
      get_weather_types B cl' ?c2 t3 t4 = (Inr m, ?c2)"
    using get_weather_types_hit[OF st] tl by simp
  from run st vals keys hit show ?thesis by blast
qed

theorem get_weather_types_transformed_witness:
  "fst (get_weather_types example_builtins
         \<lparr>base_url = ''http://ipma'', fetch = (\<lambda>url. if url = ''http://ipma/weather-type-classe.json''
             then Inr (JObj [(''data'', JArr
               [JObj [(''descWeatherTypeEN'', JStr ''Clear sky''), (''descWeatherTypePT'', JStr ''Ceu limpo''),
                      (''idWeatherType'', JInt 1)],
                JObj [(''descWeatherTypeEN'', JStr ''Rain''), (''descWeatherTypePT'', JStr ''Chuva''),
                      (''idWeatherType'', JInt 6)]])])
             else Inl (HTTPStatusError 404))\<rparr>
         (TTLCache_init 43200) 0 1)
     = Inr [(1, JObj [(''pt'', JStr ''Ceu limpo''), (''en'', JStr ''Clear sky'')]),
            (6, JObj [(''pt'', JStr ''Chuva''), (''en'', JStr ''Rain'')])]
   \<and> fst (get_weather_types example_builtins
         \<lparr>base_url = ''http://ipma'', fetch = (\<lambda>url. Inl TransportError)\<rparr>
         (snd (get_weather_types example_builtins
           \<lparr>base_url = ''http://ipma'', fetch = (\<lambda>url. if url = ''http://ipma/weather-type-classe.json''
             then Inr (JObj [(''data'', JArr
               [JObj [(''descWeatherTypeEN'', JStr ''Clear sky''), (''descWeatherTypePT'', JStr ''Ceu limpo''),
                      (''idWeatherType'', JInt 1)],
                JObj [(''descWeatherTypeEN'', JStr ''Rain''), (''descWeatherTypePT'', JStr ''Chuva''),
                      (''idWeatherType'', JInt 6)]])])
             else Inl (HTTPStatusError 404))\<rparr>
           (TTLCache_init 43200) 0 1))
         43201 43202)
     = Inr [(1, JObj [(''pt'', JStr ''Ceu limpo''), (''en'', JStr ''Clear sky'')]),
            (6, JObj [(''pt'', JStr ''Chuva''), (''en'', JStr ''Rain'')])]"
proof -
  let ?its = "[JObj [(''descWeatherTypeEN'', JStr ''Clear sky''), (''descWeatherTypePT'', JStr ''Ceu limpo''),
                      (''idWeatherType'', JInt 1)],
                JObj [(''descWeatherTypeEN'', JStr ''Rain''), (''descWeatherTypePT'', JStr ''Chuva''),
                      (''idWeatherType'', JInt 6)]]"
  let ?data = "JObj [(''data'', JArr ?its)]"
  let ?cl = "\<lparr>base_url = ''http://ipma'', fetch = (\<lambda>url. if url = ''http://ipma/weather-type-classe.json''
             then Inr ?data else Inl (HTTPStatusError 404))\<rparr>"
  let ?m = "[(1, JObj [(''pt'', JStr ''Ceu limpo''), (''en'', JStr ''Clear sky'')]),
            (6, JObj [(''pt'', JStr ''Chuva''), (''en'', JStr ''Rain'')])]"
  let ?c = "TTLCache_init 43200 :: (int \<times> json) list TTLCache"
  have h1: "fst (TTLCache_get ?c 0 ''weather_types'') = None"
    by (simp add: TTLCache_get_def TTLCache_init_def)
  have h2: "fetch ?cl (base_url ?cl @ ''/weather-type-classe.json'') = Inr ?data" by simp
  have h3: "py_get ?data ''data'' (JArr []) = Inr (JArr ?its)" by simp
  have h4: "py_iter (JArr ?its) = Inr ?its" by simp
  have h5: "weather_mapping example_builtins ?its [] = Inr ?m"
    by (simp add: ebind_def)
  from get_weather_types_transformed[OF h1 h2 h3 h4 h5, of 1]
  obtain c2 where c2: "get_weather_types example_builtins ?cl ?c 0 1 = (Inr ?m, c2)"
    and hit: "\<forall>t3 t4 cl'. t3 - 1 \<le> real_of_int (ttl ?c) \<longrightarrow>
           get_weather_types example_builtins cl' c2 t3 t4 = (Inr ?m, c2)"
    by blast
  have "(43201::real) - 1 \<le> real_of_int (ttl ?c)" by (simp add: TTLCache_init_def)
  with hit have "get_weather_types example_builtins
      \<lparr>base_url = ''http://ipma'', fetch = (\<lambda>url. Inl TransportError)\<rparr> c2 43201 43202 = (Inr ?m, c2)"
    by blast
  with c2 show ?thesis by simp
qed



text \<open>
  Claim C3 fails on \<^verbatim>\<open>forecast_for_day\<close>: the handler applies \<^verbatim>\<open>float\<close> to \<^verbatim>\<open>tMin\<close>,
  \<^verbatim>\<open>tMax\<close> and \<^verbatim>\<open>precipitaProb\<close> outside any \<^verbatim>\<open>try\<close>, so a record whose \<^verbatim>\<open>tMin\<close> is
  \<open>n/a\<close> makes the request end in \<^verbatim>\<open>ValueError\<close>. On the same document
  \<^verbatim>\<open>daily_forecast\<close> does what the claim says: \<open>n/a\<close> stays as it is, the other
  fields become floats and nothing is raised. (On a list of dictionaries the loop of
  \<^verbatim>\<open>daily_forecast\<close> never raises, \<open>daily_forecast_tolerant\<close>; what remains is the
  rendering of the response, which refuses an infinite float or \<^verbatim>\<open>nan\<close>.)
\<close>

theorem coercion_failure_propagates:
  "forecast_for_day example_builtins
     \<lparr>resolved = Inr None,
      forecast = (\<lambda>g. Inr (JObj [(''globalIdLocal'', JInt g), (''data'', JArr
         [JObj [(''forecastDate'', JStr ''2025-11-04''), (''idWeatherType'', JInt 1),
                (''tMin'', JStr ''n/a''), (''tMax'', JStr ''20.1''), (''precipitaProb'', JStr ''0'')]])])),
      wtypes = Inr [(1, JObj [(''pt'', JStr ''Ceu limpo''), (''en'', JStr ''Clear sky'')])]\<rparr>
     ''2025-11-04'' (Some 1110600) None
   = Inl ValueError
   \<and> daily_forecast example_builtins
     \<lparr>resolved = Inr None,
      forecast = (\<lambda>g. Inr (JObj [(''globalIdLocal'', JInt g), (''data'', JArr
         [JObj [(''forecastDate'', JStr ''2025-11-04''), (''idWeatherType'', JInt 1),
                (''tMin'', JStr ''n/a''), (''tMax'', JStr ''20.1''), (''precipitaProb'', JStr ''0'')]])])),
      wtypes = Inr [(1, JObj [(''pt'', JStr ''Ceu limpo''), (''en'', JStr ''Clear sky'')])]\<rparr>
     (Some 1110600) None
   = Inr (JObj [(''globalIdLocal'', JInt 1110600), (''data'', JArr
         [JObj [(''forecastDate'', JStr ''2025-11-04''), (''idWeatherType'', JInt 1),
                (''tMin'', JStr ''n/a''), (''tMax'', JFloat (Finite (201 / 10))), (''precipitaProb'', JFloat (Finite 0))]])])"
  by (simp add: forecast_for_day_def daily_forecast_def resolve_id_def ebind_def weather_of_def
      wind_of_def float_of_def label_def normalize_record_def normalize_field_def ex_float
      JSONResponse_def)

end
